theory Spec2Isabelle
  imports Main "HOL-Library.AList" "HOL-Library.Sublist"
begin

section \<open>JavaScript containers and strings\<close>

text \<open>
  A JavaScript \<open>Map\<close> keeps its keys in insertion order: \<open>set\<close> on a present key
  overwrites the value where it stands, \<open>set\<close> on a new key appends, \<open>delete\<close> removes.
  An association list with \<open>AList.update\<close> and \<open>AList.delete\<close> behaves the same way.
\<close>

type_synonym ('k, 'v) js_map = "('k \<times> 'v) list"

definition map_get :: "('k, 'v) js_map \<Rightarrow> 'k \<Rightarrow> 'v option" where
  "map_get m k = map_of m k"

definition map_has :: "('k, 'v) js_map \<Rightarrow> 'k \<Rightarrow> bool" where
  "map_has m k = (map_of m k \<noteq> None)"

definition map_set :: "('k, 'v) js_map \<Rightarrow> 'k \<Rightarrow> 'v \<Rightarrow> ('k, 'v) js_map" where
  "map_set m k v = AList.update k v m"

definition map_delete :: "('k, 'v) js_map \<Rightarrow> 'k \<Rightarrow> ('k, 'v) js_map" where
  "map_delete m k = AList.delete k m"

text \<open>\<open>String.prototype.includes\<close>: the needle occurs as a contiguous substring.\<close>

fun str_includes :: "string \<Rightarrow> string \<Rightarrow> bool" where
  "str_includes [] needle = (needle = [])"
| "str_includes (c # cs) needle = (prefix needle (c # cs) \<or> str_includes cs needle)"

text \<open>\<open>String.prototype.split\<close> with a one-character separator.\<close>

fun split_on :: "char \<Rightarrow> string \<Rightarrow> string list" where
  "split_on sep [] = [[]]"
| "split_on sep (c # cs) =
     (case split_on sep cs of
        [] \<Rightarrow> [[c]]
      | piece # pieces \<Rightarrow> if c = sep then [] # piece # pieces else (c # piece) # pieces)"

section \<open>GitManager (src/managers/git-manager.js)\<close>

subsection \<open>State\<close>

text \<open>
  \<open>syncTimestamps\<close> and \<open>lockFiles\<close> are the two \<open>Map\<close>s of the class, keyed by the
  template string \<open>`${repoUrl}:${localPath}`\<close>; the values are \<open>Date.now()\<close> readings,
  integers counting milliseconds.
\<close>

definition lockKey :: "string \<Rightarrow> string \<Rightarrow> string" where
  "lockKey repoUrl localPath = repoUrl @ '':'' @ localPath"

record repo_config =
  repo :: string
  branch :: "string option"
  local_cache :: string
  sync_policy :: string
  priority :: int

subsection \<open>shouldSync\<close>

text \<open>
  \<open>Date.now()\<close> is the argument \<open>now\<close>. The test \<open>!lastSync\<close> is true for a missing
  entry and for the number 0. The \<open>switch\<close> compares the policy string and falls to
  \<open>default: return false\<close>.
\<close>

definition shouldSync :: "(string, int) js_map \<Rightarrow> int \<Rightarrow> string \<Rightarrow> repo_config \<Rightarrow> bool" where
  "shouldSync syncTimestamps now repoName config =
     (case map_get syncTimestamps (lockKey (repo config) (local_cache config)) of
        None \<Rightarrow> True
      | Some lastSync \<Rightarrow>
          if lastSync = 0 then True
          else
            let timeDiff = now - lastSync in
            if sync_policy config = ''daily'' then timeDiff > 24 * 60 * 60 * 1000
            else if sync_policy config = ''weekly'' then timeDiff > 7 * 24 * 60 * 60 * 1000
            else if sync_policy config = ''on_demand'' then False
            else if sync_policy config = ''manual'' then False
            else False)"

subsection \<open>Paths and the cache on disk\<close>

text \<open>
  \<open>path.resolve\<close> and \<open>path.dirname\<close> of Node on a POSIX host, for the working
  directory \<open>cwd\<close>: empty and \<open>.\<close> segments vanish, \<open>..\<close> drops the segment before it.
\<close>

fun normalize_segments :: "string list \<Rightarrow> string list \<Rightarrow> string list" where
  "normalize_segments acc [] = acc"
| "normalize_segments acc (s # ss) =
     (if s = [] \<or> s = ''.'' then normalize_segments acc ss
      else if s = ''..'' then normalize_segments (butlast acc) ss
      else normalize_segments (acc @ [s]) ss)"

definition join_path :: "string list \<Rightarrow> string" where
  "join_path segs = (if segs = [] then ''/'' else concat (map (\<lambda>s. ''/'' @ s) segs))"

definition path_segments :: "string \<Rightarrow> string \<Rightarrow> string list" where
  "path_segments cwd p =
     (if p \<noteq> [] \<and> hd p = CHR ''/'' then normalize_segments [] (split_on CHR ''/'' p)
      else normalize_segments [] (split_on CHR ''/'' cwd @ split_on CHR ''/'' p))"

definition path_resolve :: "string \<Rightarrow> string \<Rightarrow> string" where
  "path_resolve cwd p = join_path (path_segments cwd p)"

definition path_dirname :: "string \<Rightarrow> string \<Rightarrow> string" where
  "path_dirname cwd p = join_path (butlast (path_segments cwd p))"

text \<open>
  The disk is the list of the directories that exist, as resolved paths.
  \<open>fs.remove\<close> deletes a path with everything below it.
\<close>

definition fs_pathExists :: "string list \<Rightarrow> string \<Rightarrow> bool" where
  "fs_pathExists disk p = (p \<in> set disk)"

definition fs_ensureDir :: "string list \<Rightarrow> string \<Rightarrow> string list" where
  "fs_ensureDir disk p = (if p \<in> set disk then disk else disk @ [p])"

definition fs_remove :: "string list \<Rightarrow> string \<Rightarrow> string list" where
  "fs_remove disk p = filter (\<lambda>q. \<not> (q = p \<or> prefix (p @ ''/'') q)) disk"

subsection \<open>syncRepo as interleaved asynchronous calls\<close>

text \<open>
  \<open>syncRepo\<close> is an \<open>async\<close> function: it runs without interruption up to its first
  \<open>await\<close>, and again between one \<open>await\<close> and the next; other calls run in between.
  A call is therefore a task with a program counter that names the promise it waits for,
  and the manager moves by two kinds of event: a new call, and the settling of the
  promise a task waits for. \<open>Returned\<close> holds the value the call resolved to.
\<close>

datatype sync_status = Success | Error | In_progress

datatype operation = Clone | Pull | Reset_and_pull

record sync_result =
  status :: sync_status
  operation :: "operation option"

datatype pc =
    AwaitPathExists
  | AwaitEnsureDir
  | AwaitClone
  | AwaitCloneLog
  | AwaitRevparse
  | AwaitCheckout
  | AwaitPull
  | AwaitPullLog
  | AwaitReset
  | AwaitRetryPull
  | Returned sync_result

datatype io_op = IoPathExists | IoEnsureDir | IoClone | IoLog | IoRevparse | IoCheckout | IoPull | IoReset

record task =
  t_repoUrl :: string
  t_localPath :: string
  t_branch :: string
  t_pc :: pc

record git_manager =
  syncTimestamps :: "(string, int) js_map"
  lockFiles :: "(string, int) js_map"
  tasks :: "task list"
  io_log :: "(nat \<times> io_op) list"
  disk :: "string list"
  cwd :: string
  cacheDir :: string

datatype io_result = Rejected | Fulfilled | FulfilledWith string

datatype event =
    Call string string string int
  | ForceCall string string string int
  | Settle nat io_result int

text \<open>
  Lines 48 to 61 of \<open>syncRepo\<close>, up to \<open>await fs.pathExists\<close>. The early
  \<open>return { status: 'in_progress' }\<close> stands inside the \<open>try\<close>, so the \<open>finally\<close>
  block runs for it too and deletes the entry of \<open>lockFiles\<close>.
\<close>

definition syncRepo_enter :: "git_manager \<Rightarrow> string \<Rightarrow> string \<Rightarrow> string \<Rightarrow> int \<Rightarrow> git_manager" where
  "syncRepo_enter gm repoUrl localPath br now =
     (let key = lockKey repoUrl localPath;
          t = \<lparr>t_repoUrl = repoUrl, t_localPath = localPath, t_branch = br, t_pc = AwaitPathExists\<rparr>
      in if map_has (lockFiles gm) key
         then gm\<lparr>tasks := tasks gm @ [t\<lparr>t_pc := Returned \<lparr>status = In_progress, operation = None\<rparr>\<rparr>],
                 lockFiles := map_delete (lockFiles gm) key\<rparr>
         else gm\<lparr>lockFiles := map_set (lockFiles gm) key now,
                 tasks := tasks gm @ [t],
                 io_log := io_log gm @ [(length (tasks gm), IoPathExists)]\<rparr>)"

text \<open>\<open>forceSync\<close>: forget the timestamp, then call \<open>syncRepo\<close>.\<close>

definition forceSync_enter :: "git_manager \<Rightarrow> string \<Rightarrow> string \<Rightarrow> string \<Rightarrow> int \<Rightarrow> git_manager" where
  "forceSync_enter gm repoUrl localPath br now =
     syncRepo_enter (gm\<lparr>syncTimestamps := map_delete (syncTimestamps gm) (lockKey repoUrl localPath)\<rparr>)
       repoUrl localPath br now"

text \<open>Moving task \<open>n\<close> to its next \<open>await\<close>, which starts the I/O \<open>op\<close>.\<close>

definition await_next :: "git_manager \<Rightarrow> nat \<Rightarrow> pc \<Rightarrow> io_op \<Rightarrow> git_manager" where
  "await_next gm n p op =
     gm\<lparr>tasks := (tasks gm)[n := (tasks gm ! n)\<lparr>t_pc := p\<rparr>], io_log := io_log gm @ [(n, op)]\<rparr>"

text \<open>
  Lines 77 to 87: the timestamp is written, the success value returned, and the
  \<open>finally\<close> block releases the lock.
\<close>

definition return_success :: "git_manager \<Rightarrow> nat \<Rightarrow> operation \<Rightarrow> int \<Rightarrow> git_manager" where
  "return_success gm n op now =
     (let t = tasks gm ! n; key = lockKey (t_repoUrl t) (t_localPath t)
      in gm\<lparr>syncTimestamps := map_set (syncTimestamps gm) key now,
             tasks := (tasks gm)[n := t\<lparr>t_pc := Returned \<lparr>status = Success, operation = Some op\<rparr>\<rparr>],
             lockFiles := map_delete (lockFiles gm) key\<rparr>)"

text \<open>Lines 89 to 100: the \<open>catch\<close> block returns the error value, then \<open>finally\<close>.\<close>

definition return_error :: "git_manager \<Rightarrow> nat \<Rightarrow> git_manager" where
  "return_error gm n =
     (let t = tasks gm ! n; key = lockKey (t_repoUrl t) (t_localPath t)
      in gm\<lparr>tasks := (tasks gm)[n := t\<lparr>t_pc := Returned \<lparr>status = Error, operation = None\<rparr>\<rparr>],
             lockFiles := map_delete (lockFiles gm) key\<rparr>)"

text \<open>\<open>String.prototype.trim\<close> on the blanks git prints.\<close>

definition is_blank :: "char \<Rightarrow> bool" where
  "is_blank c = (c = CHR '' '' \<or> c = CHR 0x0A \<or> c = CHR 0x0D \<or> c = CHR 0x09)"

definition trim :: "string \<Rightarrow> string" where
  "trim s = rev (dropWhile is_blank (rev (dropWhile is_blank s)))"

text \<open>
  The promise task \<open>n\<close> waits for settles with \<open>r\<close>. The branches follow \<open>syncRepo\<close>,
  \<open>cloneRepository\<close> and \<open>pullRepository\<close>; in the last one every rejection before the
  \<open>catch\<close> leads to the reset, and a rejection inside the \<open>catch\<close> reaches the
  \<open>catch\<close> of \<open>syncRepo\<close>. \<open>fs.pathExists\<close> never rejects: it reads the disk.
\<close>

definition settle :: "git_manager \<Rightarrow> nat \<Rightarrow> io_result \<Rightarrow> int \<Rightarrow> git_manager" where
  "settle gm n r now =
     (if n \<ge> length (tasks gm) then gm
      else
        let t = tasks gm ! n; absolutePath = path_resolve (cwd gm) (t_localPath t) in
        case t_pc t of
          Returned res \<Rightarrow> gm
        | AwaitPathExists \<Rightarrow>
            if fs_pathExists (disk gm) absolutePath
            then await_next gm n AwaitRevparse IoRevparse
            else await_next gm n AwaitEnsureDir IoEnsureDir
        | AwaitEnsureDir \<Rightarrow>
            if r = Rejected then return_error gm n
            else await_next (gm\<lparr>disk := fs_ensureDir (disk gm) (path_dirname (cwd gm) (t_localPath t))\<rparr>)
                   n AwaitClone IoClone
        | AwaitClone \<Rightarrow>
            if r = Rejected then return_error gm n
            else await_next (gm\<lparr>disk := fs_ensureDir (disk gm) absolutePath\<rparr>) n AwaitCloneLog IoLog
        | AwaitCloneLog \<Rightarrow>
            if r = Rejected then return_error gm n else return_success gm n Clone now
        | AwaitRevparse \<Rightarrow>
            (case r of
               Rejected \<Rightarrow> await_next gm n AwaitReset IoReset
             | Fulfilled \<Rightarrow>
                 if [] \<noteq> t_branch t then await_next gm n AwaitCheckout IoCheckout
                 else await_next gm n AwaitPull IoPull
             | FulfilledWith currentBranch \<Rightarrow>
                 if trim currentBranch \<noteq> t_branch t then await_next gm n AwaitCheckout IoCheckout
                 else await_next gm n AwaitPull IoPull)
        | AwaitCheckout \<Rightarrow>
            if r = Rejected then await_next gm n AwaitReset IoReset
            else await_next gm n AwaitPull IoPull
        | AwaitPull \<Rightarrow>
            if r = Rejected then await_next gm n AwaitReset IoReset
            else await_next gm n AwaitPullLog IoLog
        | AwaitPullLog \<Rightarrow>
            if r = Rejected then await_next gm n AwaitReset IoReset
            else return_success gm n Pull now
        | AwaitReset \<Rightarrow>
            if r = Rejected then return_error gm n
            else await_next gm n AwaitRetryPull IoPull
        | AwaitRetryPull \<Rightarrow>
            if r = Rejected then return_error gm n else return_success gm n Reset_and_pull now)"

fun step :: "git_manager \<Rightarrow> event \<Rightarrow> git_manager" where
  "step gm (Call repoUrl localPath br now) = syncRepo_enter gm repoUrl localPath br now"
| "step gm (ForceCall repoUrl localPath br now) = forceSync_enter gm repoUrl localPath br now"
| "step gm (Settle n r now) = settle gm n r now"

definition run :: "git_manager \<Rightarrow> event list \<Rightarrow> git_manager" where
  "run gm evs = foldl step gm evs"

text \<open>
  One call of \<open>syncRepo\<close> carried to its end with no other call in between: the call,
  then the results of its own promises in the order it awaits them.
\<close>

definition syncRepo :: "git_manager \<Rightarrow> string \<Rightarrow> string \<Rightarrow> string \<Rightarrow> (io_result \<times> int) list \<Rightarrow> int \<Rightarrow> git_manager" where
  "syncRepo gm repoUrl localPath br results now =
     run gm (Call repoUrl localPath br now # map (\<lambda>(r, at). Settle (length (tasks gm)) r at) results)"

definition result_of :: "git_manager \<Rightarrow> nat \<Rightarrow> sync_result option" where
  "result_of gm n =
     (if n < length (tasks gm) then (case t_pc (tasks gm ! n) of Returned res \<Rightarrow> Some res | _ \<Rightarrow> None)
      else None)"

text \<open>The calls that hold a promise of git or of the disk for \<open>key\<close> at this moment.\<close>

definition in_flight :: "git_manager \<Rightarrow> string \<Rightarrow> nat list" where
  "in_flight gm key =
     filter (\<lambda>n. lockKey (t_repoUrl (tasks gm ! n)) (t_localPath (tasks gm ! n)) = key
                 \<and> result_of gm n = None) [0..<length (tasks gm)]"

text \<open>The constructor, with the default \<open>cacheDir\<close>, in the working directory \<open>dir\<close>.\<close>

definition new_manager :: "string \<Rightarrow> git_manager" where
  "new_manager dir = \<lparr>syncTimestamps = [], lockFiles = [], tasks = [], io_log = [], disk = [],
     cwd = dir, cacheDir = ''./bmad-cache''\<rparr>"

subsection \<open>cleanCache\<close>

text \<open>
  With a name, \<open>cleanCache\<close> takes the first key of \<open>syncTimestamps\<close> that contains
  the name, splits it at every colon and removes the path that the second piece resolves
  to. Without a name (or with the empty string, which is falsy) it empties the cache
  root. The second component of the result is \<open>True\<close> when the function threw
  (\<open>path.resolve(undefined)\<close>); the calls to the disk are taken to succeed.
\<close>

definition cleanCache :: "git_manager \<Rightarrow> string \<Rightarrow> git_manager \<times> bool" where
  "cleanCache gm repoName =
     (if repoName \<noteq> [] then
        (case find (\<lambda>key. str_includes key repoName) (map fst (syncTimestamps gm)) of
           None \<Rightarrow> (gm, False)
         | Some key \<Rightarrow>
             (case split_on CHR '':'' key of
                _ # localPath # _ \<Rightarrow>
                  (gm\<lparr>disk := fs_remove (disk gm) (path_resolve (cwd gm) localPath),
                      syncTimestamps := map_delete (syncTimestamps gm) key\<rparr>, False)
              | _ \<Rightarrow> (gm, True)))
      else
        (gm\<lparr>disk := fs_ensureDir (fs_remove (disk gm) (path_resolve (cwd gm) (cacheDir gm)))
                        (path_resolve (cwd gm) (cacheDir gm)),
            syncTimestamps := []\<rparr>, False))"

subsection \<open>What one call does to the timestamps\<close>

definition task_key :: "git_manager \<Rightarrow> nat \<Rightarrow> string" where
  "task_key gm n = lockKey (t_repoUrl (tasks gm ! n)) (t_localPath (tasks gm ! n))"

text \<open>
  The state of call \<open>n\<close> on \<open>key\<close> against the table \<open>ts0\<close> it found: the table is
  as it was until the call returns, and after that unless the call returned a success.
\<close>

definition call_inv :: "(string, int) js_map \<Rightarrow> string \<Rightarrow> nat \<Rightarrow> git_manager \<Rightarrow> bool" where
  "call_inv ts0 key n gm =
     (n < length (tasks gm) \<and> task_key gm n = key \<and>
      (case t_pc (tasks gm ! n) of
         Returned res \<Rightarrow>
           (if status res = Success
            then \<exists>op at. res = \<lparr>status = Success, operation = Some op\<rparr> \<and> syncTimestamps gm = map_set ts0 key at
            else syncTimestamps gm = ts0)
       | _ \<Rightarrow> syncTimestamps gm = ts0))"


section \<open>FederatedDependencyResolver (src/resolvers/federated-dependency-resolver.js)\<close>

text \<open>
  \<open>federatedRepos\<close> is the \<open>Map\<close> of the class; its values are the repository
  configuration with the fields \<open>status\<close>, \<open>lastSync\<close> and \<open>syncInProgress\<close> added.
  \<open>config_doc\<close> is \<open>this.config.bmad_config.federated_knowledge\<close> (absent or an object
  keyed by source name) and \<open>saved_doc\<close> is what \<open>saveConfiguration\<close> wrote last to the
  configuration file.
\<close>

record repo_entry =
  e_config :: repo_config
  e_status :: string
  e_lastSync :: "int option"
  e_syncInProgress :: bool

record resolver =
  federatedRepos :: "(string, repo_entry) js_map"
  config_doc :: "(string, repo_config) js_map option"
  saved_doc :: "(string, repo_config) js_map option"
  gitManager :: git_manager

datatype outcome =
    Threw string
  | Skipped
  | Pending
  | Synced sync_result
  | Completed

definition status_text :: "sync_status \<Rightarrow> string" where
  "status_text s = (case s of Success \<Rightarrow> ''success'' | Error \<Rightarrow> ''error'' | In_progress \<Rightarrow> ''in_progress'')"

definition set_entry :: "resolver \<Rightarrow> string \<Rightarrow> (repo_entry \<Rightarrow> repo_entry) \<Rightarrow> resolver" where
  "set_entry r name f =
     (case map_get (federatedRepos r) name of
        None \<Rightarrow> r
      | Some e \<Rightarrow> r\<lparr>federatedRepos := map_set (federatedRepos r) name (f e)\<rparr>)"

text \<open>
  \<open>syncRepository(name, config)\<close>, where \<open>config\<close> is the entry of \<open>federatedRepos\<close>
  under \<open>name\<close>, so that the assignments to its fields are seen in the map. The call of
  \<open>gitManager.syncRepo\<close> is carried to its end with the promise results \<open>results\<close>;
  \<open>Pending\<close> is a call whose promises have not all settled. The \<open>finally\<close> block
  clears \<open>syncInProgress\<close> on every path that returns.
\<close>

definition syncRepository :: "resolver \<Rightarrow> string \<Rightarrow> repo_entry \<Rightarrow> (io_result \<times> int) list \<Rightarrow> int \<Rightarrow> resolver \<times> outcome" where
  "syncRepository r name config results now =
     (if \<not> shouldSync (syncTimestamps (gitManager r)) now name (e_config config)
      then (set_entry r name (\<lambda>e. e\<lparr>e_syncInProgress := False\<rparr>), Skipped)
      else if e_syncInProgress config
      then (set_entry r name (\<lambda>e. e\<lparr>e_syncInProgress := False\<rparr>),
            Synced \<lparr>status = In_progress, operation = None\<rparr>)
      else
        let r1 = set_entry r name (\<lambda>e. e\<lparr>e_syncInProgress := True\<rparr>);
            n = length (tasks (gitManager r1));
            gm' = syncRepo (gitManager r1) (repo (e_config config)) (local_cache (e_config config))
                    (case branch (e_config config) of None \<Rightarrow> ''main'' | Some b \<Rightarrow> if b = [] then ''main'' else b)
                    results now;
            r2 = r1\<lparr>gitManager := gm'\<rparr>
        in case result_of gm' n of
             None \<Rightarrow> (r2, Pending)
           | Some res \<Rightarrow>
               (set_entry r2 name
                  (\<lambda>e. e\<lparr>e_lastSync := Some (if results = [] then now else snd (last results)),
                         e_status := status_text (status res), e_syncInProgress := False\<rparr>),
                Synced res))"

text \<open>
  \<open>addRepository\<close> from line 304 on, for a configuration that
  \<open>validateRepositoryConfig\<close> has accepted. \<open>save_ok\<close> tells whether
  \<open>saveConfiguration\<close> could write the file; when it could not, the function throws.
\<close>

definition addRepository :: "resolver \<Rightarrow> string \<Rightarrow> repo_config \<Rightarrow> bool \<Rightarrow> (io_result \<times> int) list \<Rightarrow> int \<Rightarrow> resolver \<times> outcome" where
  "addRepository r name validatedConfig save_ok results now =
     (let entry = \<lparr>e_config = validatedConfig, e_status = ''added'', e_lastSync = None, e_syncInProgress = False\<rparr>;
          r1 = r\<lparr>federatedRepos := map_set (federatedRepos r) name entry,
                 config_doc := Some (map_set (case config_doc r of None \<Rightarrow> [] | Some d \<Rightarrow> d) name validatedConfig)\<rparr>
      in if \<not> save_ok then (r1, Threw ''Failed to save configuration file'')
         else
           (case syncRepository (r1\<lparr>saved_doc := config_doc r1\<rparr>) name entry results now of
              (r2, Synced res) \<Rightarrow> (r2, Completed)
            | (r2, Skipped) \<Rightarrow> (r2, Completed)
            | (r2, out) \<Rightarrow> (r2, out)))"

text \<open>\<open>removeRepository\<close>: the map, the configuration document, the file, then \<open>cleanCache\<close>.\<close>

definition removeRepository :: "resolver \<Rightarrow> string \<Rightarrow> bool \<Rightarrow> resolver \<times> outcome" where
  "removeRepository r name save_ok =
     (case map_get (federatedRepos r) name of
        None \<Rightarrow> (r, Threw (''Repository '' @ name @ '' not found''))
      | Some config \<Rightarrow>
          let r1 = r\<lparr>federatedRepos := map_delete (federatedRepos r) name\<rparr> in
          (case config_doc r1 of
             Some d \<Rightarrow>
               let r2 = r1\<lparr>config_doc := Some (map_delete d name)\<rparr> in
               if \<not> save_ok then (r2, Threw ''Failed to save configuration file'')
               else
                 let r3 = r2\<lparr>saved_doc := config_doc r2\<rparr>;
                     (gm', threw) = cleanCache (gitManager r3) name
                 in (r3\<lparr>gitManager := gm'\<rparr>, if threw then Threw ''TypeError'' else Completed)
           | None \<Rightarrow>
               let (gm', threw) = cleanCache (gitManager r1) name
               in (r1\<lparr>gitManager := gm'\<rparr>, if threw then Threw ''TypeError'' else Completed)))"

definition new_resolver :: "string \<Rightarrow> resolver" where
  "new_resolver dir = \<lparr>federatedRepos = [], config_doc = Some [], saved_doc = None, gitManager = new_manager dir\<rparr>"

section \<open>KnowledgeMerger (src/core/knowledge-merger, in core/logger.js)\<close>

subsection \<open>Parsed content and the deep merge of lodash\<close>

text \<open>
  What \<open>JSON.parse\<close> and \<open>yaml.parse\<close> return. An object is the list of its
  properties in insertion order, each key once; numbers are integers here.
\<close>

datatype json =
    JNull
  | JBool bool
  | JNum int
  | JStr string
  | JArr "json list"
  | JObj "(string \<times> json) list"

text \<open>\<open>_.isObject\<close>: true of objects and of arrays, false of \<open>null\<close> and the scalars.\<close>

fun isObject :: "json \<Rightarrow> bool" where
  "isObject (JArr xs) = True"
| "isObject (JObj ps) = True"
| "isObject v = False"

text \<open>The keys of an array are its indices in decimal.\<close>

definition digit_char :: "nat \<Rightarrow> char" where
  "digit_char d = char_of (48 + d)"

fun index_key :: "nat \<Rightarrow> string" where
  "index_key n = (if n < 10 then [digit_char n] else index_key (n div 10) @ [digit_char (n mod 10)])"

definition is_digit :: "char \<Rightarrow> bool" where
  "is_digit c = (48 \<le> (of_char c :: nat) \<and> (of_char c :: nat) \<le> 57)"

definition array_index :: "string \<Rightarrow> nat option" where
  "array_index k =
     (if k \<noteq> [] \<and> list_all is_digit k \<and> (k = ''0'' \<or> hd k \<noteq> CHR ''0'')
      then Some (foldl (\<lambda>n c. 10 * n + ((of_char c :: nat) - 48)) 0 k) else None)"

definition entries_of :: "json \<Rightarrow> (string \<times> json) list" where
  "entries_of v =
     (case v of JObj ps \<Rightarrow> ps | JArr ys \<Rightarrow> zip (map index_key [0..<length ys]) ys | _ \<Rightarrow> [])"

text \<open>
  Reading and writing one property. An array read at a hole gives \<open>undefined\<close>; written
  past its end it grows, and the holes print as \<open>null\<close>. A property of an array that is
  not an index is kept by JavaScript but never printed by \<open>JSON.stringify\<close>, and is left
  out here.
\<close>

definition get_prop :: "json \<Rightarrow> string \<Rightarrow> json option" where
  "get_prop obj k =
     (case obj of
        JObj qs \<Rightarrow> map_of qs k
      | JArr xs \<Rightarrow> (case array_index k of
                     Some i \<Rightarrow> if i < length xs then Some (xs ! i) else None
                   | None \<Rightarrow> None)
      | _ \<Rightarrow> None)"

definition set_prop :: "json \<Rightarrow> string \<Rightarrow> json \<Rightarrow> json" where
  "set_prop obj k v =
     (case obj of
        JObj qs \<Rightarrow> JObj (AList.update k v qs)
      | JArr xs \<Rightarrow> (case array_index k of
                     Some i \<Rightarrow> if i < length xs then JArr (xs[i := v])
                               else JArr (xs @ replicate (i - length xs) JNull @ [v])
                   | None \<Rightarrow> JArr xs)
      | _ \<Rightarrow> obj)"

text \<open>
  \<open>_.mergeWith(object, source, customizer)\<close> with the customizer of
  \<open>handleDataConflict\<close>, which answers \<open>objValue.concat(srcValue)\<close> when the value
  on the existing side is an array and leaves every other pair to lodash. \<open>merge_value\<close>
  is the value lodash assigns at one key (\<open>baseMergeDeep\<close> and the scalar branch of
  \<open>baseMerge\<close>): an array on the existing side is concatenated with an incoming array or
  gets an incoming value of another kind appended; two objects are merged key by key; in
  every other case the incoming value (a deep copy of it) takes the place.
  \<open>baseMerge\<close> walks the properties of the source.
\<close>

fun merge_value :: "json option \<Rightarrow> json \<Rightarrow> json"
  and baseMerge :: "json \<Rightarrow> (string \<times> json) list \<Rightarrow> json" where
  "merge_value (Some (JArr xs)) (JArr ys) = JArr (xs @ ys)"
| "merge_value (Some (JArr xs)) srcValue = JArr (xs @ [srcValue])"
| "merge_value (Some (JObj qs)) (JObj ps) = baseMerge (JObj qs) ps"
| "merge_value objValue srcValue = srcValue"
| "baseMerge obj [] = obj"
| "baseMerge obj ((k, srcValue) # ps) = baseMerge (set_prop obj k (merge_value (get_prop obj k) srcValue)) ps"

definition mergeWith :: "json \<Rightarrow> json \<Rightarrow> json" where
  "mergeWith existingContent incomingContent = baseMerge existingContent (entries_of incomingContent)"

subsection \<open>Sources, artifacts and the merged tree\<close>

text \<open>
  A source as \<open>resolveKnowledge\<close> hands it over: \<open>repo\<close> is set for a federated source
  and missing for a local one, and \<open>source.repo || source.source\<close> is its name.
\<close>

record knowledge_source =
  ks_path :: string
  ks_priority :: int
  ks_source :: string
  ks_repo :: "string option"

definition source_name :: "knowledge_source \<Rightarrow> string" where
  "source_name s = (case ks_repo s of Some r \<Rightarrow> if r \<noteq> [] then r else ks_source s | None \<Rightarrow> ks_source s)"

text \<open>
  What \<open>scanDirectory\<close> returns for one file: its path below the category root and its
  content (the fields \<open>name\<close>, \<open>extension\<close> and \<open>size\<close>, which the merger carries
  along and never reads, are left out). A source directory holds the three scanned
  folders, each missing or scanned in the order of \<open>readdir\<close>, and the configuration
  files that exist, by file name.
\<close>

record scanned =
  rel :: string
  f_content :: string

record source_dir =
  templates_dir :: "scanned list option"
  workflows_dir :: "scanned list option"
  core_data_dir :: "scanned list option"
  config_file :: "string \<Rightarrow> string option"

datatype node = File string | Directory

text \<open>
  The collaborators of the merger: the directory found at \<open>path.resolve\<close> of a source
  path, the node found at any other path, and the parsers and printer of the runtime,
  where \<open>None\<close> is a thrown \<open>SyntaxError\<close>.
\<close>

record runtime =
  dir_at :: "string \<Rightarrow> source_dir option"
  node_at :: "string \<Rightarrow> node option"
  JSON_parse :: "string \<Rightarrow> json option"
  yaml_parse :: "string \<Rightarrow> json option"
  JSON_stringify :: "json \<Rightarrow> string"

record entry =
  en_path :: string
  en_content :: string
  en_source :: string
  en_priority :: int
  en_merged :: bool
  en_sources :: "string list"

record conflict =
  c_type :: string
  c_key :: string
  c_existing :: "(string \<times> int) option"
  c_incoming :: "(string \<times> int) option"
  c_resolution :: string
  c_reason :: string

record provenance =
  p_name :: string
  p_path :: string
  p_priority :: int
  p_type :: string

record merged_knowledge =
  sources :: "provenance list"
  templates :: "(string, entry) js_map"
  workflows :: "(string, entry) js_map"
  data :: "(string, entry) js_map"
  configs :: "(string, entry) js_map"
  conflicts :: "conflict list"

definition empty_knowledge :: merged_knowledge where
  "empty_knowledge = \<lparr>sources = [], templates = [], workflows = [], data = [], configs = [], conflicts = []\<rparr>"

subsection \<open>normalizeKey\<close>

text \<open>Backslashes become slashes, and the letters A to Z become lower case.\<close>

definition to_lower :: "char \<Rightarrow> char" where
  "to_lower c = (if 65 \<le> (of_char c :: nat) \<and> (of_char c :: nat) \<le> 90 then char_of ((of_char c :: nat) + 32) else c)"

definition normalizeKey :: "string \<Rightarrow> string" where
  "normalizeKey key = map (\<lambda>c. to_lower (if c = CHR 0x5C then CHR ''/'' else c)) key"

subsection \<open>handleConflict and handleDataConflict\<close>

text \<open>\<open>conflictResolution\<close> is the option of the constructor, compared as a string.\<close>

definition handleConflict :: "string \<Rightarrow> string \<Rightarrow> string \<Rightarrow> entry \<Rightarrow> knowledge_source \<Rightarrow> conflict" where
  "handleConflict conflictResolution type key existing source =
     (let c = \<lparr>c_type = type, c_key = key,
               c_existing = Some (en_source existing, en_priority existing),
               c_incoming = Some (source_name source, ks_priority source),
               c_resolution = [], c_reason = []\<rparr>
      in if conflictResolution = ''priority'' then
           (if ks_priority source > en_priority existing
            then c\<lparr>c_resolution := ''replace'', c_reason := ''Higher priority source''\<rparr>
            else c\<lparr>c_resolution := ''keep'', c_reason := ''Lower priority source''\<rparr>)
         else if conflictResolution = ''local_wins'' then
           (if en_source existing = ''local''
            then c\<lparr>c_resolution := ''keep'', c_reason := ''Local source takes precedence''\<rparr>
            else c\<lparr>c_resolution := ''replace'', c_reason := ''No local source conflict''\<rparr>)
         else if conflictResolution = ''manual'' then
           c\<lparr>c_resolution := ''manual'', c_reason := ''Manual resolution required''\<rparr>
         else c\<lparr>c_resolution := ''keep'', c_reason := ''Default strategy''\<rparr>)"

text \<open>
  \<open>parseContent\<close>: a string that names an existing path is read from there (reading a
  directory throws, which is \<open>None\<close>); then \<open>JSON.parse\<close>, then \<open>yaml.parse\<close>, then the
  string itself.
\<close>

definition parseContent :: "runtime \<Rightarrow> string \<Rightarrow> json option" where
  "parseContent rt contentOrPath =
     (case (case node_at rt contentOrPath of
              None \<Rightarrow> Some contentOrPath
            | Some (File text) \<Rightarrow> Some text
            | Some Directory \<Rightarrow> None) of
        None \<Rightarrow> None
      | Some content \<Rightarrow>
          (case JSON_parse rt content of
             Some v \<Rightarrow> Some v
           | None \<Rightarrow> (case yaml_parse rt content of Some v \<Rightarrow> Some v | None \<Rightarrow> Some (JStr content))))"

text \<open>
  \<open>handleDataConflict\<close> returns the conflict record; the first component is the
  existing entry as the function leaves it, since it assigns to the fields of the object
  that the \<open>data\<close> map holds.
\<close>

definition handleDataConflict :: "runtime \<Rightarrow> string \<Rightarrow> string \<Rightarrow> entry \<Rightarrow> scanned \<Rightarrow> string \<Rightarrow> knowledge_source \<Rightarrow> entry \<times> conflict" where
  "handleDataConflict rt conflictResolution key existing incoming incomingPath source =
     (let fallback = (existing, handleConflict conflictResolution ''data'' key existing source) in
      case parseContent rt (if en_content existing \<noteq> [] then en_content existing else en_path existing) of
        None \<Rightarrow> fallback
      | Some existingContent \<Rightarrow>
          (case parseContent rt (if f_content incoming \<noteq> [] then f_content incoming else incomingPath) of
             None \<Rightarrow> fallback
           | Some incomingContent \<Rightarrow>
               if isObject existingContent \<and> isObject incomingContent
               then (existing\<lparr>en_content := JSON_stringify rt (mergeWith existingContent incomingContent),
                              en_merged := True,
                              en_sources := [en_source existing, source_name source]\<rparr>,
                     \<lparr>c_type = ''data'', c_key = key, c_existing = None, c_incoming = None,
                      c_resolution = ''merged'', c_reason = ''Successfully merged data structures''\<rparr>)
               else fallback))"

subsection \<open>The four process functions\<close>

definition new_entry :: "string \<Rightarrow> string \<Rightarrow> knowledge_source \<Rightarrow> entry" where
  "new_entry path content source =
     \<lparr>en_path = path, en_content = content, en_source = source_name source,
      en_priority = ks_priority source, en_merged = False, en_sources = []\<rparr>"

definition path_join :: "string \<Rightarrow> string \<Rightarrow> string" where
  "path_join a b = a @ ''/'' @ b"

text \<open>The body of the loop of \<open>processTemplates\<close>, lines 254 to 282, for one file.\<close>

definition processTemplate :: "string \<Rightarrow> string \<Rightarrow> knowledge_source \<Rightarrow> merged_knowledge \<Rightarrow> scanned \<Rightarrow> merged_knowledge" where
  "processTemplate conflictResolution templatesPath source mk template =
     (let key = normalizeKey (rel template);
          new = new_entry (path_join templatesPath (rel template)) (f_content template) source
      in case map_get (templates mk) key of
           Some existing \<Rightarrow>
             (let c = handleConflict conflictResolution ''template'' key existing source;
                  mk1 = (if c_resolution c = ''replace''
                         then mk\<lparr>templates := map_set (templates mk) key new\<rparr> else mk)
              in mk1\<lparr>conflicts := conflicts mk1 @ [c]\<rparr>)
         | None \<Rightarrow> mk\<lparr>templates := map_set (templates mk) key new\<rparr>)"

definition processTemplates :: "runtime \<Rightarrow> string \<Rightarrow> string \<Rightarrow> merged_knowledge \<Rightarrow> knowledge_source \<Rightarrow> merged_knowledge" where
  "processTemplates rt conflictResolution sourcePath mk source =
     (case dir_at rt sourcePath of
        None \<Rightarrow> mk
      | Some d \<Rightarrow>
          (case templates_dir d of
             None \<Rightarrow> mk
           | Some files \<Rightarrow>
               foldl (processTemplate conflictResolution (path_join sourcePath ''templates'') source) mk files))"

definition processWorkflow :: "string \<Rightarrow> string \<Rightarrow> knowledge_source \<Rightarrow> merged_knowledge \<Rightarrow> scanned \<Rightarrow> merged_knowledge" where
  "processWorkflow conflictResolution workflowsPath source mk workflow =
     (let key = normalizeKey (rel workflow);
          new = new_entry (path_join workflowsPath (rel workflow)) (f_content workflow) source
      in case map_get (workflows mk) key of
           Some existing \<Rightarrow>
             (let c = handleConflict conflictResolution ''workflow'' key existing source;
                  mk1 = (if c_resolution c = ''replace''
                         then mk\<lparr>workflows := map_set (workflows mk) key new\<rparr> else mk)
              in mk1\<lparr>conflicts := conflicts mk1 @ [c]\<rparr>)
         | None \<Rightarrow> mk\<lparr>workflows := map_set (workflows mk) key new\<rparr>)"

definition processWorkflows :: "runtime \<Rightarrow> string \<Rightarrow> string \<Rightarrow> merged_knowledge \<Rightarrow> knowledge_source \<Rightarrow> merged_knowledge" where
  "processWorkflows rt conflictResolution sourcePath mk source =
     (case dir_at rt sourcePath of
        None \<Rightarrow> mk
      | Some d \<Rightarrow>
          (case workflows_dir d of
             None \<Rightarrow> mk
           | Some files \<Rightarrow>
               foldl (processWorkflow conflictResolution (path_join sourcePath ''workflows'') source) mk files))"

text \<open>
  The body of the loop of \<open>processData\<close>, lines 357 to 376. On a collision the record
  of \<open>handleDataConflict\<close> is pushed; there is no test of \<open>conflict.resolution\<close> here,
  and the only change to the map is what \<open>handleDataConflict\<close> did to the existing entry.
\<close>

definition processDataFile :: "runtime \<Rightarrow> string \<Rightarrow> string \<Rightarrow> knowledge_source \<Rightarrow> merged_knowledge \<Rightarrow> scanned \<Rightarrow> merged_knowledge" where
  "processDataFile rt conflictResolution dataPath source mk dataFile =
     (let key = normalizeKey (rel dataFile);
          new = new_entry (path_join dataPath (rel dataFile)) (f_content dataFile) source
      in case map_get (data mk) key of
           Some existing \<Rightarrow>
             (let (existing', c) = handleDataConflict rt conflictResolution key existing dataFile
                                     (path_join dataPath (rel dataFile)) source
              in mk\<lparr>data := map_set (data mk) key existing', conflicts := conflicts mk @ [c]\<rparr>)
         | None \<Rightarrow> mk\<lparr>data := map_set (data mk) key new\<rparr>)"

definition processData :: "runtime \<Rightarrow> string \<Rightarrow> string \<Rightarrow> merged_knowledge \<Rightarrow> knowledge_source \<Rightarrow> merged_knowledge" where
  "processData rt conflictResolution sourcePath mk source =
     (case dir_at rt sourcePath of
        None \<Rightarrow> mk
      | Some d \<Rightarrow>
          (case core_data_dir d of
             None \<Rightarrow> mk
           | Some files \<Rightarrow>
               foldl (processDataFile rt conflictResolution (path_join sourcePath ''core-data'') source) mk files))"

definition configFiles :: "string list" where
  "configFiles = [''core-config.yaml'', ''core-config.yml'', ''bmad-config.yaml'', ''bmad-config.yml'']"

definition processConfig :: "source_dir \<Rightarrow> string \<Rightarrow> string \<Rightarrow> knowledge_source \<Rightarrow> merged_knowledge \<Rightarrow> string \<Rightarrow> merged_knowledge" where
  "processConfig d conflictResolution sourcePath source mk configFile =
     (case config_file d configFile of
        None \<Rightarrow> mk
      | Some content \<Rightarrow>
          (let key = normalizeKey configFile;
               new = new_entry (path_join sourcePath configFile) content source
           in case map_get (configs mk) key of
                Some existing \<Rightarrow>
                  (let c = handleConflict conflictResolution ''config'' key existing source;
                       mk1 = (if c_resolution c = ''replace''
                              then mk\<lparr>configs := map_set (configs mk) key new\<rparr> else mk)
                   in mk1\<lparr>conflicts := conflicts mk1 @ [c]\<rparr>)
              | None \<Rightarrow> mk\<lparr>configs := map_set (configs mk) key new\<rparr>))"

definition processConfigs :: "runtime \<Rightarrow> string \<Rightarrow> string \<Rightarrow> merged_knowledge \<Rightarrow> knowledge_source \<Rightarrow> merged_knowledge" where
  "processConfigs rt conflictResolution sourcePath mk source =
     (case dir_at rt sourcePath of
        None \<Rightarrow> mk
      | Some d \<Rightarrow> foldl (processConfig d conflictResolution sourcePath source) mk configFiles)"

subsection \<open>processKnowledgeSource and mergeKnowledgeSources\<close>

definition processKnowledgeSource :: "runtime \<Rightarrow> string \<Rightarrow> merged_knowledge \<Rightarrow> knowledge_source \<Rightarrow> merged_knowledge" where
  "processKnowledgeSource rt conflictResolution mk source =
     (let sourcePath = ks_path source in
      case dir_at rt sourcePath of
        None \<Rightarrow> mk
      | Some d \<Rightarrow>
          (let mk0 = mk\<lparr>sources := sources mk @
                        [\<lparr>p_name = source_name source, p_path = sourcePath,
                          p_priority = ks_priority source, p_type = ks_source source\<rparr>]\<rparr>;
               mk1 = processTemplates rt conflictResolution sourcePath mk0 source;
               mk2 = processWorkflows rt conflictResolution sourcePath mk1 source;
               mk3 = processData rt conflictResolution sourcePath mk2 source
           in processConfigs rt conflictResolution sourcePath mk3 source))"

text \<open>
  \<open>knowledgeSources.sort((a, b) => b.priority - a.priority)\<close>: the sort of the runtime
  is stable, as insertion by the key \<open>- priority\<close> is. \<open>postMergeProcessing\<close> writes
  the sizes of the maps and of the conflict list into \<open>metadata\<close>, which is left out,
  as are the timestamps of the records.
\<close>

definition sortedSources :: "knowledge_source list \<Rightarrow> knowledge_source list" where
  "sortedSources knowledgeSources = sort_key (\<lambda>s. - ks_priority s) knowledgeSources"

definition mergeKnowledgeSources :: "runtime \<Rightarrow> string \<Rightarrow> knowledge_source list \<Rightarrow> merged_knowledge" where
  "mergeKnowledgeSources rt conflictResolution knowledgeSources =
     foldl (processKnowledgeSource rt conflictResolution) empty_knowledge (sortedSources knowledgeSources)"

subsection \<open>The candidate sources of resolveKnowledge\<close>

text \<open>
  Lines 114 to 147 of \<open>resolveKnowledge\<close>: one source for every entry of
  \<open>federatedRepos\<close>, in the order of the map, then one source with priority 999 for
  every entry of \<open>local_knowledge\<close> whose path exists.
\<close>

definition federated_source :: "string \<times> repo_entry \<Rightarrow> knowledge_source" where
  "federated_source ne =
     \<lparr>ks_path = local_cache (e_config (snd ne)), ks_priority = priority (e_config (snd ne)),
      ks_source = ''federated'', ks_repo = Some (fst ne)\<rparr>"

definition local_source :: "string \<times> string \<Rightarrow> knowledge_source" where
  "local_source tp = \<lparr>ks_path = snd tp, ks_priority = 999, ks_source = ''local'', ks_repo = None\<rparr>"

definition knowledgeSources :: "(string \<Rightarrow> bool) \<Rightarrow> (string, repo_entry) js_map \<Rightarrow> (string \<times> string) list option \<Rightarrow> knowledge_source list" where
  "knowledgeSources pathExists repos localKnowledge =
     map federated_source repos @
     (case localKnowledge of
        None \<Rightarrow> []
      | Some l \<Rightarrow> map local_source (filter (\<lambda>tp. pathExists (snd tp)) l))"

section \<open>The merge, category by category\<close>

text \<open>
  The loops of the four process functions have one shape: an artifact arrives under a
  key, and either the key is free and the artifact is stored, or the key is taken and a
  conflict record is written. \<open>collide\<close> is that step on one category map, for the
  three categories that ask \<open>handleConflict\<close>; it returns the map and the records
  written (none or one). \<open>collide_data\<close> is the step of \<open>processData\<close>.
  These definitions restate the loop bodies; the lemmas \<open>processTemplates_collide\<close>
  and its siblings prove that the process functions compute them.
\<close>

definition collide :: "string \<Rightarrow> string \<Rightarrow> knowledge_source \<Rightarrow> (string, entry) js_map \<Rightarrow> string \<times> entry \<Rightarrow> (string, entry) js_map \<times> conflict list" where
  "collide conflictResolution type source m item =
     (case map_get m (fst item) of
        Some existing \<Rightarrow>
          (let c = handleConflict conflictResolution type (fst item) existing source
           in (if c_resolution c = ''replace'' then map_set m (fst item) (snd item) else m, [c]))
      | None \<Rightarrow> (map_set m (fst item) (snd item), []))"

fun collide_all :: "string \<Rightarrow> string \<Rightarrow> knowledge_source \<Rightarrow> (string, entry) js_map \<Rightarrow> (string \<times> entry) list \<Rightarrow> (string, entry) js_map \<times> conflict list" where
  "collide_all conflictResolution type source m [] = (m, [])"
| "collide_all conflictResolution type source m (item # items) =
     (let (m1, written1) = collide conflictResolution type source m item;
          (m2, written2) = collide_all conflictResolution type source m1 items
      in (m2, written1 @ written2))"

definition collide_data :: "runtime \<Rightarrow> string \<Rightarrow> string \<Rightarrow> knowledge_source \<Rightarrow> (string, entry) js_map \<Rightarrow> scanned \<Rightarrow> (string, entry) js_map \<times> conflict list" where
  "collide_data rt conflictResolution dataPath source m dataFile =
     (case map_get m (normalizeKey (rel dataFile)) of
        Some existing \<Rightarrow>
          (let (existing', c) = handleDataConflict rt conflictResolution (normalizeKey (rel dataFile)) existing
                                  dataFile (path_join dataPath (rel dataFile)) source
           in (map_set m (normalizeKey (rel dataFile)) existing', [c]))
      | None \<Rightarrow> (map_set m (normalizeKey (rel dataFile))
                   (new_entry (path_join dataPath (rel dataFile)) (f_content dataFile) source), []))"

fun collide_data_all :: "runtime \<Rightarrow> string \<Rightarrow> string \<Rightarrow> knowledge_source \<Rightarrow> (string, entry) js_map \<Rightarrow> scanned list \<Rightarrow> (string, entry) js_map \<times> conflict list" where
  "collide_data_all rt conflictResolution dataPath source m [] = (m, [])"
| "collide_data_all rt conflictResolution dataPath source m (dataFile # dataFiles) =
     (let (m1, written1) = collide_data rt conflictResolution dataPath source m dataFile;
          (m2, written2) = collide_data_all rt conflictResolution dataPath source m1 dataFiles
      in (m2, written1 @ written2))"

text \<open>
  The artifacts one source brings to each category, in the order the loops meet them,
  each under its normalized key.
\<close>

definition scanned_items :: "string \<Rightarrow> knowledge_source \<Rightarrow> scanned list \<Rightarrow> (string \<times> entry) list" where
  "scanned_items root source files =
     map (\<lambda>f. (normalizeKey (rel f), new_entry (path_join root (rel f)) (f_content f) source)) files"

definition template_items :: "runtime \<Rightarrow> knowledge_source \<Rightarrow> (string \<times> entry) list" where
  "template_items rt source =
     (case dir_at rt (ks_path source) of
        None \<Rightarrow> []
      | Some d \<Rightarrow> (case templates_dir d of
                    None \<Rightarrow> []
                  | Some files \<Rightarrow> scanned_items (path_join (ks_path source) ''templates'') source files))"

definition workflow_items :: "runtime \<Rightarrow> knowledge_source \<Rightarrow> (string \<times> entry) list" where
  "workflow_items rt source =
     (case dir_at rt (ks_path source) of
        None \<Rightarrow> []
      | Some d \<Rightarrow> (case workflows_dir d of
                    None \<Rightarrow> []
                  | Some files \<Rightarrow> scanned_items (path_join (ks_path source) ''workflows'') source files))"

definition data_files :: "runtime \<Rightarrow> knowledge_source \<Rightarrow> scanned list" where
  "data_files rt source =
     (case dir_at rt (ks_path source) of
        None \<Rightarrow> []
      | Some d \<Rightarrow> (case core_data_dir d of None \<Rightarrow> [] | Some files \<Rightarrow> files))"

definition present_configs :: "source_dir \<Rightarrow> string \<Rightarrow> knowledge_source \<Rightarrow> string list \<Rightarrow> (string \<times> entry) list" where
  "present_configs d root source names =
     concat (map (\<lambda>n. case config_file d n of
                         None \<Rightarrow> []
                       | Some content \<Rightarrow> [(normalizeKey n, new_entry (path_join root n) content source)]) names)"

definition config_items :: "runtime \<Rightarrow> knowledge_source \<Rightarrow> (string \<times> entry) list" where
  "config_items rt source =
     (case dir_at rt (ks_path source) of
        None \<Rightarrow> []
      | Some d \<Rightarrow> present_configs d (ks_path source) source configFiles)"

text \<open>
  A collision is an artifact whose key is taken when it arrives: \<open>collisions seen keys\<close>
  counts them along a sequence of keys, starting from the set of keys already taken.
\<close>

fun collisions :: "string set \<Rightarrow> string list \<Rightarrow> nat" where
  "collisions seen [] = 0"
| "collisions seen (k # ks) = (if k \<in> seen then 1 else 0) + collisions (insert k seen) ks"

definition keys_of :: "(string, entry) js_map \<Rightarrow> string set" where
  "keys_of m = fst ` set m"

text \<open>Every entry of the map has a priority of at least \<open>n\<close>.\<close>

definition at_least :: "int \<Rightarrow> (string, entry) js_map \<Rightarrow> bool" where
  "at_least n m = (\<forall>e \<in> snd ` set m. n \<le> en_priority e)"

text \<open>The first artifact under key \<open>k\<close> along a list of sources.\<close>

fun first_item :: "(knowledge_source \<Rightarrow> (string \<times> entry) list) \<Rightarrow> knowledge_source list \<Rightarrow> string \<Rightarrow> entry option" where
  "first_item items [] k = None"
| "first_item items (s # rest) k =
     (case map_of (items s) k of Some e \<Rightarrow> Some e | None \<Rightarrow> first_item items rest k)"

text \<open>The keys that a list of sources brings to each category, in processing order.\<close>

definition template_keys :: "runtime \<Rightarrow> knowledge_source list \<Rightarrow> string list" where
  "template_keys rt srcs = concat (map (\<lambda>s. map fst (template_items rt s)) srcs)"

definition workflow_keys :: "runtime \<Rightarrow> knowledge_source list \<Rightarrow> string list" where
  "workflow_keys rt srcs = concat (map (\<lambda>s. map fst (workflow_items rt s)) srcs)"

definition data_keys :: "runtime \<Rightarrow> knowledge_source list \<Rightarrow> string list" where
  "data_keys rt srcs = concat (map (\<lambda>s. map (\<lambda>f. normalizeKey (rel f)) (data_files rt s)) srcs)"

definition config_keys :: "runtime \<Rightarrow> knowledge_source list \<Rightarrow> string list" where
  "config_keys rt srcs = concat (map (\<lambda>s. map fst (config_items rt s)) srcs)"

text \<open>A record that left the map as it was, or a merged data record.\<close>

definition settled :: "conflict \<Rightarrow> bool" where
  "settled c = (c_resolution c = ''keep'' \<or> c_type c = ''data'' \<and> c_resolution c = ''merged'')"

subsection \<open>Sample inputs of the sync manager\<close>

definition daily_config :: repo_config where
  "daily_config = \<lparr>repo = ''u'', branch = None, local_cache = ''p'', sync_policy = ''daily'', priority = 0\<rparr>"

definition manual_config :: repo_config where
  "manual_config = \<lparr>repo = ''u'', branch = None, local_cache = ''p'', sync_policy = ''manual'', priority = 0\<rparr>"

definition three_calls :: "event list" where
  "three_calls = [Call ''u'' ''p'' ''main'' 1, Call ''u'' ''p'' ''main'' 2, Call ''u'' ''p'' ''main'' 3]"

text \<open>
  The first source of \<open>generateExampleConfig\<close>, and the source of the tests of the
  repository; each is added (the clone succeeds), synced again 25 hours later (the pull
  succeeds) and removed.
\<close>

definition org_standards :: repo_config where
  "org_standards = \<lparr>repo = ''https://github.com/goldbergyoni/nodebestpractices.git'', branch = Some ''master'',
     local_cache = ''./.bmad-fks-cache/org-standards'', sync_policy = ''daily'', priority = 1\<rparr>"

definition test_repo :: repo_config where
  "test_repo = \<lparr>repo = ''https://github.com/user/repo.git'', branch = Some ''main'',
     local_cache = ''./cache/repo'', sync_policy = ''daily'', priority = 1\<rparr>"

definition add_sync_remove :: "string \<Rightarrow> repo_config \<Rightarrow> resolver" where
  "add_sync_remove name config =
     (let (r1, out1) = addRepository (new_resolver ''/work'') name config True
                         [(Fulfilled, 1), (Fulfilled, 2), (Fulfilled, 3), (Fulfilled, 4)] 0;
          (r2, out2) = (case map_get (federatedRepos r1) name of
                          Some e \<Rightarrow> syncRepository r1 name e
                            [(Fulfilled, 90000001), (FulfilledWith (the (branch config)), 90000002),
                             (Fulfilled, 90000003), (Fulfilled, 90000004)] 90000000
                        | None \<Rightarrow> (r1, Skipped));
          (r3, out3) = removeRepository r2 name True
      in r3)"

text \<open>A manager that holds a timestamp for the key, and a clone that the remote rejects.\<close>

definition stale_manager :: git_manager where
  "stale_manager = (new_manager ''/work'')\<lparr>syncTimestamps := [(''u:p'', 5)]\<rparr>"

definition failing_clone :: "(io_result \<times> int) list" where
  "failing_clone = [(Fulfilled, 11), (Fulfilled, 12), (Rejected, 13)]"

subsection \<open>Sample inputs of the merger\<close>

text \<open>
  The source directories of the samples. \<open>/a\<close>, \<open>/b\<close>, \<open>/low\<close>, \<open>/mid\<close>, \<open>/local\<close> and
  \<open>/fed\<close> each hold the template \<open>api.yaml\<close> with a content of their own; \<open>/d1\<close> to
  \<open>/d4\<close> each hold the data file \<open>x.yaml\<close>: two YAML maps with different fields, a
  YAML sequence and a plain word. \<open>/all\<close> and \<open>/n\<close> hold a template, a workflow and a
  configuration file each.
\<close>

definition one_template :: "string \<Rightarrow> source_dir" where
  "one_template text =
     \<lparr>templates_dir = Some [\<lparr>rel = ''api.yaml'', f_content = text\<rparr>], workflows_dir = None,
      core_data_dir = None, config_file = (\<lambda>n. None)\<rparr>"

definition one_data :: "string \<Rightarrow> source_dir" where
  "one_data text =
     \<lparr>templates_dir = None, workflows_dir = None,
      core_data_dir = Some [\<lparr>rel = ''x.yaml'', f_content = text\<rparr>], config_file = (\<lambda>n. None)\<rparr>"

definition full_dir :: "string \<Rightarrow> source_dir" where
  "full_dir text =
     \<lparr>templates_dir = Some [\<lparr>rel = ''api.yaml'', f_content = text\<rparr>],
      workflows_dir = Some [\<lparr>rel = ''api.yaml'', f_content = text\<rparr>],
      core_data_dir = None,
      config_file = (\<lambda>n. if n = ''core-config.yaml'' then Some text else None)\<rparr>"

definition sample_dirs :: "string \<Rightarrow> source_dir option" where
  "sample_dirs p =
     (if p = ''/a'' then Some (one_template ''from A'')
      else if p = ''/b'' then Some (one_template ''from B'')
      else if p = ''/low'' then Some (one_template ''from low'')
      else if p = ''/mid'' then Some (one_template ''from mid'')
      else if p = ''/local'' then Some (one_template ''from local'')
      else if p = ''/fed'' then Some (one_template ''from fed'')
      else if p = ''/d1'' then Some (one_data ''a: 1'')
      else if p = ''/d2'' then Some (one_data ''b: 2'')
      else if p = ''/d3'' then Some (one_data ''- 1'')
      else if p = ''/d4'' then Some (one_data ''plain'')
      else if p = ''/all'' then Some (full_dir ''old'')
      else if p = ''/n'' then Some (full_dir ''new'')
      else None)"

definition sample_yaml :: "string \<Rightarrow> json option" where
  "sample_yaml text =
     (if text = ''a: 1'' then Some (JObj [(''a'', JNum 1)])
      else if text = ''b: 2'' then Some (JObj [(''b'', JNum 2)])
      else if text = ''- 1'' then Some (JArr [JNum 1])
      else Some (JStr text))"

text \<open>The printer of the sample runtime writes the objects of the samples on one line.\<close>

definition sample_stringify :: "json \<Rightarrow> string" where
  "sample_stringify v =
     (if v = JObj [(''a'', JNum 1), (''b'', JNum 2)] then ''{a:1,b:2}''
      else if v = JObj [(''b'', JNum 2), (''a'', JNum 1)] then ''{b:2,a:1}''
      else ''?'')"

definition sample_rt :: runtime where
  "sample_rt = \<lparr>dir_at = sample_dirs, node_at = (\<lambda>p. None), JSON_parse = (\<lambda>text. None),
                yaml_parse = sample_yaml, JSON_stringify = sample_stringify\<rparr>"

definition src :: "string \<Rightarrow> int \<Rightarrow> knowledge_source" where
  "src p n = \<lparr>ks_path = p, ks_priority = n, ks_source = ''federated'', ks_repo = Some p\<rparr>"

definition fed_entry :: "string \<Rightarrow> int \<Rightarrow> repo_entry" where
  "fed_entry p n =
     \<lparr>e_config = \<lparr>repo = ''https://host/r.git'', branch = None, local_cache = p,
                  sync_policy = ''weekly'', priority = n\<rparr>,
      e_status = ''success'', e_lastSync = None, e_syncInProgress = False\<rparr>"

definition holding_d1 :: merged_knowledge where
  "holding_d1 = processKnowledgeSource sample_rt ''priority'' empty_knowledge (src ''/d1'' 1)"

definition holding_a :: merged_knowledge where
  "holding_a = processKnowledgeSource sample_rt ''priority'' empty_knowledge (src ''/a'' 5)"

text \<open>
  A source directory with one template, one workflow and one configuration file, and the
  tree that holds the three from a source of priority 5.
\<close>

definition all_entry :: "string \<Rightarrow> entry" where
  "all_entry below = new_entry (''/all/'' @ below) ''old'' (src ''/all'' 5)"

definition holding_all :: merged_knowledge where
  "holding_all = processKnowledgeSource (sample_rt\<lparr>dir_at := (\<lambda>p. Some (full_dir ''old''))\<rparr>)
                   ''priority'' empty_knowledge (src ''/all'' 5)"

definition upper_file :: scanned where
  "upper_file = \<lparr>rel = ''API.yaml'', f_content = ''new''\<rparr>"

definition d1_entry :: entry where
  "d1_entry = new_entry ''/d1/core-data/x.yaml'' ''a: 1'' (src ''/d1'' 1)"

definition d2_file :: scanned where
  "d2_file = \<lparr>rel = ''x.yaml'', f_content = ''b: 2''\<rparr>"

definition d3_file :: scanned where
  "d3_file = \<lparr>rel = ''x.yaml'', f_content = ''- 1''\<rparr>"

definition d4_file :: scanned where
  "d4_file = \<lparr>rel = ''x.yaml'', f_content = ''plain''\<rparr>"

definition three_sources :: "knowledge_source list" where
  "three_sources = [src ''/low'' 0, src ''/mid'' 1, local_source (''templates'', ''/local'')]"

definition two_sources :: "knowledge_source list" where
  "two_sources = [src ''/a'' 5, src ''/b'' 10]"

definition full_sources :: "knowledge_source list" where
  "full_sources = [src ''/all'' 5, src ''/n'' 10]"

section \<open>Properties\<close>

subsection \<open>Sync policy\<close>

text \<open>
  C4, as the code has it. With no recorded sync \<open>shouldSync\<close> is true for every policy,
  and so it is with a recorded timestamp of 0, which JavaScript takes for a missing one.
  With a recorded sync at a timestamp other than 0 the result depends on the policy and on the elapsed time \<open>now - lastSync\<close>
  alone: \<open>daily\<close> is true exactly when more than 24 hours have passed, \<open>weekly\<close> exactly
  when more than 7 days have passed, \<open>on_demand\<close> and \<open>manual\<close> are false.
\<close>

theorem shouldSync_policy:
  "(map_get ts (lockKey (repo config) (local_cache config)) = None \<longrightarrow> shouldSync ts now repoName config) \<and>
   (map_get ts (lockKey (repo config) (local_cache config)) = Some 0 \<longrightarrow> shouldSync ts now repoName config) \<and>
   (\<forall>lastSync. map_get ts (lockKey (repo config) (local_cache config)) = Some lastSync \<and> lastSync \<noteq> 0 \<longrightarrow>
      (sync_policy config = ''daily'' \<longrightarrow>
         (shouldSync ts now repoName config \<longleftrightarrow> now - lastSync > 24 * 60 * 60 * 1000)) \<and>
      (sync_policy config = ''weekly'' \<longrightarrow>
         (shouldSync ts now repoName config \<longleftrightarrow> now - lastSync > 7 * 24 * 60 * 60 * 1000)) \<and>
      (sync_policy config = ''on_demand'' \<or> sync_policy config = ''manual'' \<longrightarrow>
         \<not> shouldSync ts now repoName config))"
  by (auto simp add: shouldSync_def Let_def)

text \<open>
  The tests of the repository: 25 hours after the last sync, and 1 hour after it. Then a
  source never synced, and a \<open>manual\<close> source whose recorded timestamp is 0.
\<close>

theorem shouldSync_policy_witness:
  "map_get [(''u:p'', 1)] (lockKey (repo daily_config) (local_cache daily_config)) = Some 1 \<and> (1::int) \<noteq> 0 \<and>
   sync_policy daily_config = ''daily'' \<and>
   shouldSync [(''u:p'', 1)] 90000001 ''r'' daily_config \<and> \<not> shouldSync [(''u:p'', 1)] 3600001 ''r'' daily_config \<and>
   map_get [] (lockKey (repo manual_config) (local_cache manual_config)) = None \<and>
   shouldSync [] 5 ''r'' manual_config \<and>
   map_get [(''u:p'', 0)] (lockKey (repo manual_config) (local_cache manual_config)) = Some 0 \<and>
   shouldSync [(''u:p'', 0)] 5 ''r'' manual_config"
  using shouldSync_policy [of "[(''u:p'', 1)]" daily_config 90000001 "''r''"]
        shouldSync_policy [of "[(''u:p'', 1)]" daily_config 3600001 "''r''"]
        shouldSync_policy [of "[]" manual_config 5 "''r''"]
        shouldSync_policy [of "[(''u:p'', 0)]" manual_config 5 "''r''"]
  by (simp add: daily_config_def manual_config_def lockKey_def map_get_def)

text \<open>
  C4 as stated asks for \<open>true\<close> once at least 24 hours have passed. Exactly 24 hours
  after the last sync the comparison \<open>timeDiff > 24 * 60 * 60 * 1000\<close> is false.
\<close>

theorem shouldSync_daily_boundary_counterexample:
  "(86400001::int) - 1 \<ge> 24 * 60 * 60 * 1000 \<and>
   \<not> shouldSync [(lockKey ''u'' ''p'', 1)] 86400001 ''r'' daily_config"
  by (simp add: shouldSync_def daily_config_def lockKey_def map_get_def)

subsection \<open>Timestamps are written on success only\<close>

lemma call_inv_enter:
  "call_inv (syncTimestamps gm) (lockKey repoUrl localPath) (length (tasks gm))
     (syncRepo_enter gm repoUrl localPath br now)"
  by (simp add: call_inv_def syncRepo_enter_def Let_def task_key_def nth_append)

lemma call_inv_Returned:
  "call_inv ts0 key n gm \<Longrightarrow> t_pc (tasks gm ! n) = Returned res \<Longrightarrow> settle gm n r at = gm"
  by (simp add: call_inv_def settle_def Let_def)

lemma call_inv_await_next:
  assumes "n < length (tasks gm)" "task_key gm n = key" "syncTimestamps gm = ts0" "\<forall>res. p \<noteq> Returned res"
  shows "call_inv ts0 key n (await_next gm n p op)"
  using assms by (cases p) (simp_all add: call_inv_def await_next_def task_key_def)

lemma call_inv_return_error:
  assumes "n < length (tasks gm)" "task_key gm n = key" "syncTimestamps gm = ts0"
  shows "call_inv ts0 key n (return_error gm n)"
  using assms by (simp add: call_inv_def return_error_def task_key_def Let_def)

lemma call_inv_return_success:
  assumes "n < length (tasks gm)" "task_key gm n = key" "syncTimestamps gm = ts0"
  shows "call_inv ts0 key n (return_success gm n op at)"
  using assms by (auto simp add: call_inv_def return_success_def task_key_def Let_def)

lemma task_key_disk:
  "task_key (gm\<lparr>disk := d\<rparr>) n = task_key gm n"
  by (simp add: task_key_def)

lemma call_inv_settle:
  assumes "call_inv ts0 key n gm"
  shows "call_inv ts0 key n (settle gm n r at)"
proof (cases "\<exists>res. t_pc (tasks gm ! n) = Returned res")
  case True
  with assms show ?thesis by (auto simp add: call_inv_Returned)
next
  case False
  from assms have a: "n < length (tasks gm)" "task_key gm n = key"
    by (simp_all add: call_inv_def)
  from assms False have ts: "syncTimestamps gm = ts0"
    by (cases "t_pc (tasks gm ! n)") (simp_all add: call_inv_def)
  note facts = call_inv_await_next call_inv_return_error call_inv_return_success task_key_disk
  show ?thesis
  proof (cases "t_pc (tasks gm ! n)")
    case (Returned res)
    with False show ?thesis by simp
  next
    case AwaitPathExists
    with a ts show ?thesis by (simp add: settle_def Let_def facts)
  next
    case AwaitEnsureDir
    with a ts show ?thesis by (simp add: settle_def Let_def facts)
  next
    case AwaitClone
    with a ts show ?thesis by (simp add: settle_def Let_def facts)
  next
    case AwaitCloneLog
    with a ts show ?thesis by (simp add: settle_def Let_def facts)
  next
    case AwaitRevparse
    with a ts show ?thesis by (cases r) (simp_all add: settle_def Let_def facts)
  next
    case AwaitCheckout
    with a ts show ?thesis by (simp add: settle_def Let_def facts)
  next
    case AwaitPull
    with a ts show ?thesis by (simp add: settle_def Let_def facts)
  next
    case AwaitPullLog
    with a ts show ?thesis by (simp add: settle_def Let_def facts)
  next
    case AwaitReset
    with a ts show ?thesis by (simp add: settle_def Let_def facts)
  next
    case AwaitRetryPull
    with a ts show ?thesis by (simp add: settle_def Let_def facts)
  qed
qed

lemma call_inv_settles:
  "call_inv ts0 key n gm \<Longrightarrow> call_inv ts0 key n (foldl step gm (map (\<lambda>(r, at). Settle n r at) results))"
  by (induction results arbitrary: gm) (auto simp add: call_inv_settle)

text \<open>
  C6. A call of \<open>syncRepo\<close> carried to its end, whatever its promises bring: when it
  returns a result that is not a success (an error, or in_progress) the table of
  timestamps is the one the call found; and when the table has changed, the call returned
  a success with an operation (clone, pull or reset_and_pull) and the only change is the
  entry of its own key.
\<close>

theorem syncRepo_timestamp_only_on_success:
  assumes "gm' = syncRepo gm repoUrl localPath br results now"
      and "n = length (tasks gm)"
  shows "(\<forall>res. result_of gm' n = Some res \<and> status res \<noteq> Success \<longrightarrow> syncTimestamps gm' = syncTimestamps gm) \<and>
         (syncTimestamps gm' \<noteq> syncTimestamps gm \<longrightarrow>
            (\<exists>op at. result_of gm' n = Some \<lparr>status = Success, operation = Some op\<rparr> \<and>
                      syncTimestamps gm' = map_set (syncTimestamps gm) (lockKey repoUrl localPath) at))"
proof -
  have "call_inv (syncTimestamps gm) (lockKey repoUrl localPath) n gm'"
    unfolding assms syncRepo_def run_def
    by (simp add: call_inv_settles call_inv_enter)
  then show ?thesis
    by (cases "t_pc (tasks gm' ! n)") (auto simp add: call_inv_def result_of_def split: if_splits)
qed

text \<open>A clone that the remote rejects, for a key synced before: the old timestamp stays.\<close>

theorem syncRepo_timestamp_only_on_success_witness:
  "result_of (syncRepo stale_manager ''u'' ''p'' ''main'' failing_clone 10) 0
     = Some \<lparr>status = Error, operation = None\<rparr> \<and>
   syncTimestamps (syncRepo stale_manager ''u'' ''p'' ''main'' failing_clone 10) = [(''u:p'', 5)]"
proof -
  have r: "result_of (syncRepo stale_manager ''u'' ''p'' ''main'' failing_clone 10) 0
             = Some \<lparr>status = Error, operation = None\<rparr>"
    by code_simp
  have n: "0 = length (tasks stale_manager)"
    by (simp add: stale_manager_def new_manager_def)
  have ts: "syncTimestamps stale_manager = [(''u:p'', 5)]"
    by (simp add: stale_manager_def)
  from syncRepo_timestamp_only_on_success [OF refl n, of "''u''" "''p''" "''main''" failing_clone 10] r ts
  show ?thesis by simp
qed

text \<open>
  \<open>forceSync\<close> deletes the timestamp itself before it calls \<open>syncRepo\<close>: after a
  forced sync that fails the key has no timestamp at all.
\<close>

lemma failed_forceSync_has_no_timestamp:
  "syncTimestamps (run stale_manager (ForceCall ''u'' ''p'' ''main'' 10 # map (\<lambda>(r, at). Settle 0 r at) failing_clone)) = []"
  by code_simp

subsection \<open>The lock of syncRepo\<close>

text \<open>
  A call that finds the lock returns in_progress at once and starts no I/O, and the lock
  is gone when it has returned, although another call set it.
\<close>

lemma rejected_call_releases_lock:
  assumes "map_has (lockFiles gm) (lockKey repoUrl localPath)"
  shows "result_of (syncRepo_enter gm repoUrl localPath br now) (length (tasks gm))
           = Some \<lparr>status = In_progress, operation = None\<rparr>"
    and "io_log (syncRepo_enter gm repoUrl localPath br now) = io_log gm"
    and "\<not> map_has (lockFiles (syncRepo_enter gm repoUrl localPath br now)) (lockKey repoUrl localPath)"
  using assms
  by (simp_all add: syncRepo_enter_def Let_def result_of_def nth_append map_has_def map_delete_def delete_conv')

text \<open>
  C1 on the code: three calls for one key, one after the other, before any promise
  settles. The second call finds the lock and returns in_progress, and its \<open>finally\<close>
  block deletes the lock of the first call. The third call, made while the first is
  still in flight, therefore finds no lock: it is not answered in_progress, it takes the
  lock and starts its own I/O, and after four more promises the first and the third call
  both wait for \<open>git clone\<close> into the same directory.
\<close>

theorem syncRepo_third_call_not_in_progress:
  "result_of (run (new_manager ''/work'') three_calls) 0 = None \<and>
   result_of (run (new_manager ''/work'') three_calls) 1 = Some \<lparr>status = In_progress, operation = None\<rparr> \<and>
   result_of (run (new_manager ''/work'') three_calls) 2 = None \<and>
   in_flight (run (new_manager ''/work'') three_calls) (lockKey ''u'' ''p'') = [0, 2] \<and>
   map t_pc (tasks (run (new_manager ''/work'')
     (three_calls @ [Settle 0 Fulfilled 4, Settle 2 Fulfilled 5, Settle 0 Fulfilled 6, Settle 2 Fulfilled 7])))
     = [AwaitClone, Returned \<lparr>status = In_progress, operation = None\<rparr>, AwaitClone] \<and>
   filter (\<lambda>(n, op). op = IoClone) (io_log (run (new_manager ''/work'')
     (three_calls @ [Settle 0 Fulfilled 4, Settle 2 Fulfilled 5, Settle 0 Fulfilled 6, Settle 2 Fulfilled 7])))
     = [(0, IoClone), (2, IoClone)]"
  by code_simp

subsection \<open>Removing a source\<close>

text \<open>
  C7 on the code. For the example source \<open>org_standards\<close> the key of \<open>syncTimestamps\<close>
  does not contain the source name, so \<open>cleanCache\<close> finds nothing: after add, sync and
  remove the configuration document and the saved file are free of the name, but the
  cache directory and the timestamp are still there. For the source \<open>repo\<close> of the tests
  the key contains the name; the second piece of the key split at colons is
  \<open>//github.com/user/repo.git\<close>, a piece of the URL, so the timestamp goes and the cache
  directory stays.
\<close>

theorem remove_leaves_cache_directory:
  "config_doc (add_sync_remove ''org_standards'' org_standards) = Some [] \<and>
   saved_doc (add_sync_remove ''org_standards'' org_standards) = Some [] \<and>
   fs_pathExists (disk (gitManager (add_sync_remove ''org_standards'' org_standards)))
     (path_resolve ''/work'' (local_cache org_standards)) \<and>
   map_has (syncTimestamps (gitManager (add_sync_remove ''org_standards'' org_standards)))
     (lockKey (repo org_standards) (local_cache org_standards)) \<and>
   config_doc (add_sync_remove ''repo'' test_repo) = Some [] \<and>
   fs_pathExists (disk (gitManager (add_sync_remove ''repo'' test_repo)))
     (path_resolve ''/work'' (local_cache test_repo)) \<and>
   syncTimestamps (gitManager (add_sync_remove ''repo'' test_repo)) = []"
  by code_simp

subsection \<open>The priority strategy at one collision\<close>

lemma handleConflict_priority:
  "handleConflict ''priority'' type key existing source =
     \<lparr>c_type = type, c_key = key,
      c_existing = Some (en_source existing, en_priority existing),
      c_incoming = Some (source_name source, ks_priority source),
      c_resolution = (if ks_priority source > en_priority existing then ''replace'' else ''keep''),
      c_reason = (if ks_priority source > en_priority existing then ''Higher priority source'' else ''Lower priority source'')\<rparr>"
  by (simp add: handleConflict_def)

lemma processTemplate_collision:
  assumes "map_get (templates mk) (normalizeKey (rel t)) = Some existing"
  shows "templates (processTemplate ''priority'' p s mk t) =
           (if ks_priority s > en_priority existing
            then map_set (templates mk) (normalizeKey (rel t)) (new_entry (path_join p (rel t)) (f_content t) s)
            else templates mk)"
  using assms by (simp add: processTemplate_def Let_def handleConflict_priority)

lemma processWorkflow_collision:
  assumes "map_get (workflows mk) (normalizeKey (rel t)) = Some existing"
  shows "workflows (processWorkflow ''priority'' p s mk t) =
           (if ks_priority s > en_priority existing
            then map_set (workflows mk) (normalizeKey (rel t)) (new_entry (path_join p (rel t)) (f_content t) s)
            else workflows mk)"
  using assms by (simp add: processWorkflow_def Let_def handleConflict_priority)

lemma processConfig_collision:
  assumes "config_file d n = Some text" "map_get (configs mk) (normalizeKey n) = Some existing"
  shows "configs (processConfig d ''priority'' p s mk n) =
           (if ks_priority s > en_priority existing
            then map_set (configs mk) (normalizeKey n) (new_entry (path_join p n) text s)
            else configs mk)"
  using assms by (simp add: processConfig_def Let_def handleConflict_priority)

text \<open>
  C3, for the three categories that go through \<open>handleConflict\<close> and test its answer.
  Under the \<open>priority\<close> strategy, at a collision in \<open>templates\<close>, \<open>workflows\<close> or
  \<open>configs\<close>, the incoming artifact takes the place of the existing entry when the
  priority of the incoming source is strictly greater than the priority recorded in the
  entry, and in every other case, a tie among them, the map is left as it was.
\<close>

theorem priority_replaces_iff_higher:
  "(map_get (templates mk) (normalizeKey (rel t)) = Some existing \<longrightarrow>
      templates (processTemplate ''priority'' p s mk t) =
        (if ks_priority s > en_priority existing
         then map_set (templates mk) (normalizeKey (rel t)) (new_entry (path_join p (rel t)) (f_content t) s)
         else templates mk)) \<and>
   (map_get (workflows mk) (normalizeKey (rel t)) = Some existing \<longrightarrow>
      workflows (processWorkflow ''priority'' p s mk t) =
        (if ks_priority s > en_priority existing
         then map_set (workflows mk) (normalizeKey (rel t)) (new_entry (path_join p (rel t)) (f_content t) s)
         else workflows mk)) \<and>
   (config_file d n = Some text \<and> map_get (configs mk) (normalizeKey n) = Some existing \<longrightarrow>
      configs (processConfig d ''priority'' p s mk n) =
        (if ks_priority s > en_priority existing
         then map_set (configs mk) (normalizeKey n) (new_entry (path_join p n) text s)
         else configs mk))"
  using processTemplate_collision processWorkflow_collision processConfig_collision by blast

text \<open>
  A tree that holds a template, a workflow and a configuration file of priority 5 meets
  the same three artifacts from a source of priority 10, which replace them, and from a
  source of priority 5, which do not.
\<close>

theorem priority_replaces_iff_higher_witness:
  "map_get (templates holding_all) (normalizeKey (rel upper_file)) = Some (all_entry ''templates/api.yaml'') \<and>
   map_get (workflows holding_all) (normalizeKey (rel upper_file)) = Some (all_entry ''workflows/api.yaml'') \<and>
   config_file (full_dir ''new'') ''core-config.yaml'' = Some ''new'' \<and>
   map_get (configs holding_all) (normalizeKey ''core-config.yaml'') = Some (all_entry ''core-config.yaml'') \<and>
   templates (processTemplate ''priority'' ''/n/templates'' (src ''/n'' 10) holding_all upper_file)
     = [(''api.yaml'', new_entry ''/n/templates/API.yaml'' ''new'' (src ''/n'' 10))] \<and>
   workflows (processWorkflow ''priority'' ''/n/workflows'' (src ''/n'' 10) holding_all upper_file)
     = [(''api.yaml'', new_entry ''/n/workflows/API.yaml'' ''new'' (src ''/n'' 10))] \<and>
   configs (processConfig (full_dir ''new'') ''priority'' ''/n'' (src ''/n'' 10) holding_all ''core-config.yaml'')
     = [(''core-config.yaml'', new_entry ''/n/core-config.yaml'' ''new'' (src ''/n'' 10))] \<and>
   templates (processTemplate ''priority'' ''/n/templates'' (src ''/n'' 5) holding_all upper_file)
     = templates holding_all"
proof -
  have h1: "map_get (templates holding_all) (normalizeKey (rel upper_file)) = Some (all_entry ''templates/api.yaml'')"
    by code_simp
  have h2: "map_get (workflows holding_all) (normalizeKey (rel upper_file)) = Some (all_entry ''workflows/api.yaml'')"
    by code_simp
  have h3: "config_file (full_dir ''new'') ''core-config.yaml'' = Some ''new''"
    by (simp add: full_dir_def)
  have h4: "map_get (configs holding_all) (normalizeKey ''core-config.yaml'') = Some (all_entry ''core-config.yaml'')"
    by code_simp
  have t1: "templates holding_all = [(''api.yaml'', all_entry ''templates/api.yaml'')]"
    by code_simp
  have t2: "workflows holding_all = [(''api.yaml'', all_entry ''workflows/api.yaml'')]"
    by code_simp
  have t3: "configs holding_all = [(''core-config.yaml'', all_entry ''core-config.yaml'')]"
    by code_simp
  have k1: "normalizeKey (rel upper_file) = ''api.yaml''" by code_simp
  have k2: "normalizeKey ''core-config.yaml'' = ''core-config.yaml''" by code_simp
  have j1: "path_join ''/n/templates'' (rel upper_file) = ''/n/templates/API.yaml''" by code_simp
  have j2: "path_join ''/n/workflows'' (rel upper_file) = ''/n/workflows/API.yaml''" by code_simp
  have j3: "path_join ''/n'' ''core-config.yaml'' = ''/n/core-config.yaml''" by code_simp
  have c: "f_content upper_file = ''new''" by (simp add: upper_file_def)
  have p: "en_priority (all_entry x) = 5" "ks_priority (src ''/n'' 10) = 10" "ks_priority (src ''/n'' 5) = 5" for x
    by (simp_all add: all_entry_def src_def new_entry_def)
  note T = priority_replaces_iff_higher
  from T [of holding_all upper_file "all_entry ''templates/api.yaml''" "''/n/templates''" "src ''/n'' 10"] h1
  have a: "templates (processTemplate ''priority'' ''/n/templates'' (src ''/n'' 10) holding_all upper_file)
     = [(''api.yaml'', new_entry ''/n/templates/API.yaml'' ''new'' (src ''/n'' 10))]"
    by (simp add: p t1 k1 j1 c map_set_def)
  from T [of holding_all upper_file "all_entry ''workflows/api.yaml''" "''/n/workflows''" "src ''/n'' 10"] h2
  have b: "workflows (processWorkflow ''priority'' ''/n/workflows'' (src ''/n'' 10) holding_all upper_file)
     = [(''api.yaml'', new_entry ''/n/workflows/API.yaml'' ''new'' (src ''/n'' 10))]"
    by (simp add: p t2 k1 j2 c map_set_def)
  from T [of holding_all upper_file "all_entry ''core-config.yaml''" "''/n''" "src ''/n'' 10"
            "full_dir ''new''" "''core-config.yaml''" "''new''"] h3 h4
  have d: "configs (processConfig (full_dir ''new'') ''priority'' ''/n'' (src ''/n'' 10) holding_all ''core-config.yaml'')
     = [(''core-config.yaml'', new_entry ''/n/core-config.yaml'' ''new'' (src ''/n'' 10))]"
    by (simp add: p t3 k2 j3 map_set_def)
  from T [of holding_all upper_file "all_entry ''templates/api.yaml''" "''/n/templates''" "src ''/n'' 5"] h1
  have e: "templates (processTemplate ''priority'' ''/n/templates'' (src ''/n'' 5) holding_all upper_file)
     = templates holding_all"
    by (simp add: p)
  from h1 h2 h3 h4 a b d e show ?thesis by blast
qed

text \<open>
  C3 as stated speaks of every key collision. In the \<open>data\<close> category two contents that
  parse to maps are merged into the existing entry whatever the priorities are: the
  entry of priority 1 meets a source of priority 5 and is not replaced by its artifact.
\<close>

theorem data_collision_not_replaced_counterexample:
  "map_get (data holding_d1) (normalizeKey ''x.yaml'') = Some (new_entry ''/d1/core-data/x.yaml'' ''a: 1'' (src ''/d1'' 1)) \<and>
   ks_priority (src ''/d2'' 5) > en_priority (new_entry ''/d1/core-data/x.yaml'' ''a: 1'' (src ''/d1'' 1)) \<and>
   map_get (data (processDataFile sample_rt ''priority'' ''/d2/core-data'' (src ''/d2'' 5) holding_d1
                    \<lparr>rel = ''x.yaml'', f_content = ''b: 2''\<rparr>)) (normalizeKey ''x.yaml'')
     \<noteq> Some (new_entry ''/d2/core-data/x.yaml'' ''b: 2'' (src ''/d2'' 5))"
  by code_simp

subsection \<open>The structural merge of data files\<close>

lemma baseMerge_JObj:
  "\<exists>rs. baseMerge (JObj qs) ps = JObj rs"
  by (induction ps arbitrary: qs) (auto simp add: set_prop_def)

lemma get_prop_JObj: "get_prop (JObj qs) k = map_of qs k"
  by (simp add: get_prop_def)

lemma set_prop_JObj: "set_prop (JObj qs) k v = JObj (AList.update k v qs)"
  by (simp add: set_prop_def)

lemma baseMerge_lookup:
  "distinct (map fst ps) \<Longrightarrow>
   get_prop (baseMerge (JObj qs) ps) k =
     (case map_of ps k of
        None \<Rightarrow> map_of qs k
      | Some srcValue \<Rightarrow> Some (merge_value (map_of qs k) srcValue))"
proof (induction ps arbitrary: qs)
  case Nil
  show ?case by (simp add: get_prop_JObj)
next
  case (Cons p ps)
  obtain k' sv where p: "p = (k', sv)" by (cases p)
  from Cons.prems p have d: "distinct (map fst ps)" and nk: "k' \<notin> fst ` set ps" by auto
  have nm: "map_of ps k' = None" using nk by (simp add: map_of_eq_None_iff)
  have step: "baseMerge (JObj qs) (p # ps) =
                baseMerge (JObj (AList.update k' (merge_value (map_of qs k') sv) qs)) ps"
    by (simp add: p get_prop_JObj set_prop_JObj)
  show ?case
  proof (cases "k = k'")
    case True
    with nm show ?thesis
      unfolding step Cons.IH [OF d] by (simp add: p update_conv' split: option.split)
  next
    case False
    then show ?thesis
      unfolding step Cons.IH [OF d] by (simp add: p update_conv' split: option.split)
  qed
qed

lemma mergeWith_lookup:
  "distinct (map fst ps) \<Longrightarrow>
   get_prop (mergeWith (JObj qs) (JObj ps)) k =
     (case map_of ps k of
        None \<Rightarrow> map_of qs k
      | Some srcValue \<Rightarrow> Some (merge_value (map_of qs k) srcValue))"
  by (simp add: mergeWith_def entries_of_def baseMerge_lookup)

lemma baseMerge_disjoint:
  "distinct (map fst ps) \<Longrightarrow> fst ` set ps \<inter> fst ` set qs = {} \<Longrightarrow> baseMerge (JObj qs) ps = JObj (qs @ ps)"
proof (induction ps arbitrary: qs)
  case Nil
  show ?case by simp
next
  case (Cons p ps)
  obtain k sv where p: "p = (k, sv)" by (cases p)
  from Cons.prems p have nq: "k \<notin> fst ` set qs" by auto
  then have mq: "map_of qs k = None" by (simp add: map_of_eq_None_iff)
  have up: "AList.update k sv qs = qs @ [(k, sv)]"
    using nq by (induction qs) auto
  from Cons.prems p have d: "distinct (map fst ps)" and dj: "fst ` set ps \<inter> fst ` set (qs @ [(k, sv)]) = {}"
    by auto
  from Cons.IH [OF d dj] p mq up show ?case
    by (simp add: set_prop_JObj get_prop_JObj)
qed

lemma handleDataConflict_merged:
  assumes "parseContent rt (if en_content existing \<noteq> [] then en_content existing else en_path existing) = Some ec"
      and "parseContent rt (if f_content incoming \<noteq> [] then f_content incoming else ipath) = Some ic"
      and "isObject ec" "isObject ic"
  shows "handleDataConflict rt cr key existing incoming ipath s =
           (existing\<lparr>en_content := JSON_stringify rt (mergeWith ec ic), en_merged := True,
                     en_sources := [en_source existing, source_name s]\<rparr>,
            \<lparr>c_type = ''data'', c_key = key, c_existing = None, c_incoming = None,
             c_resolution = ''merged'', c_reason = ''Successfully merged data structures''\<rparr>)"
  using assms by (simp add: handleDataConflict_def Let_def)

lemma handleDataConflict_fallback:
  assumes "\<forall>ec ic. parseContent rt (if en_content existing \<noteq> [] then en_content existing else en_path existing) = Some ec \<and>
              parseContent rt (if f_content incoming \<noteq> [] then f_content incoming else ipath) = Some ic
              \<longrightarrow> \<not> (isObject ec \<and> isObject ic)"
  shows "handleDataConflict rt cr key existing incoming ipath s =
           (existing, handleConflict cr ''data'' key existing s)"
  using assms by (auto simp add: handleDataConflict_def Let_def split: option.splits)

lemma processDataFile_merged:
  assumes "map_get (data mk) (normalizeKey (rel f)) = Some existing"
      and "parseContent rt (if en_content existing \<noteq> [] then en_content existing else en_path existing) = Some ec"
      and "parseContent rt (if f_content f \<noteq> [] then f_content f else path_join p (rel f)) = Some ic"
      and "isObject ec" "isObject ic"
  shows "processDataFile rt cr p s mk f =
           mk\<lparr>data := map_set (data mk) (normalizeKey (rel f))
                 (existing\<lparr>en_content := JSON_stringify rt (mergeWith ec ic), en_merged := True,
                           en_sources := [en_source existing, source_name s]\<rparr>),
              conflicts := conflicts mk @
                 [\<lparr>c_type = ''data'', c_key = normalizeKey (rel f), c_existing = None, c_incoming = None,
                   c_resolution = ''merged'', c_reason = ''Successfully merged data structures''\<rparr>]\<rparr>"
  using assms by (simp add: processDataFile_def Let_def handleDataConflict_merged)

lemma processDataFile_fallback:
  assumes "map_get (data mk) (normalizeKey (rel f)) = Some existing"
      and "\<forall>ec ic. parseContent rt (if en_content existing \<noteq> [] then en_content existing else en_path existing) = Some ec \<and>
              parseContent rt (if f_content f \<noteq> [] then f_content f else path_join p (rel f)) = Some ic
              \<longrightarrow> \<not> (isObject ec \<and> isObject ic)"
  shows "conflicts (processDataFile rt cr p s mk f) =
           conflicts mk @ [handleConflict cr ''data'' (normalizeKey (rel f)) existing s]"
  using assms by (simp add: processDataFile_def Let_def handleDataConflict_fallback)

text \<open>
  C5, with the guard the code has. At a collision in the \<open>data\<close> category, when both
  contents parse to values that \<open>_.isObject\<close> accepts (objects, and arrays too), the
  stored content becomes the printed deep merge and the record says \<open>merged\<close>. For
  two maps the merge holds every field of either side; a field of both sides holds
  \<open>merge_value\<close> of the two values, which concatenates two sequences without removing
  duplicates and merges two maps by the same rule; maps with no field in common give the
  fields of the first followed by those of the second. When one side parses to a value
  that is no object (a scalar, a string, null) or cannot be read, the record is the one
  of \<open>handleConflict\<close> under the configured strategy.
\<close>

theorem data_collision_merge_or_fallback:
  assumes "map_get (data mk) (normalizeKey (rel f)) = Some existing"
  shows
  "(\<forall>ec ic. parseContent rt (if en_content existing \<noteq> [] then en_content existing else en_path existing) = Some ec \<and>
            parseContent rt (if f_content f \<noteq> [] then f_content f else path_join p (rel f)) = Some ic \<and>
            isObject ec \<and> isObject ic \<longrightarrow>
      map_option en_content (map_get (data (processDataFile rt cr p s mk f)) (normalizeKey (rel f)))
        = Some (JSON_stringify rt (mergeWith ec ic)) \<and>
      (\<exists>c. conflicts (processDataFile rt cr p s mk f) = conflicts mk @ [c] \<and> c_resolution c = ''merged'')) \<and>
   ((\<forall>ec ic. parseContent rt (if en_content existing \<noteq> [] then en_content existing else en_path existing) = Some ec \<and>
             parseContent rt (if f_content f \<noteq> [] then f_content f else path_join p (rel f)) = Some ic
             \<longrightarrow> \<not> (isObject ec \<and> isObject ic)) \<longrightarrow>
      conflicts (processDataFile rt cr p s mk f) =
        conflicts mk @ [handleConflict cr ''data'' (normalizeKey (rel f)) existing s]) \<and>
   (\<forall>qs ps k. distinct (map fst ps) \<longrightarrow>
      get_prop (mergeWith (JObj qs) (JObj ps)) k =
        (case map_of ps k of
           None \<Rightarrow> map_of qs k
         | Some srcValue \<Rightarrow> Some (merge_value (map_of qs k) srcValue))) \<and>
   (\<forall>qs ps. distinct (map fst ps) \<and> fst ` set ps \<inter> fst ` set qs = {} \<longrightarrow>
      mergeWith (JObj qs) (JObj ps) = JObj (qs @ ps)) \<and>
   (\<forall>xs ys. merge_value (Some (JArr xs)) (JArr ys) = JArr (xs @ ys)) \<and>
   (\<forall>a b. merge_value (Some (JObj a)) (JObj b) = mergeWith (JObj a) (JObj b))"
proof (intro conjI allI impI)
  fix ec ic
  assume h: "parseContent rt (if en_content existing \<noteq> [] then en_content existing else en_path existing) = Some ec \<and>
            parseContent rt (if f_content f \<noteq> [] then f_content f else path_join p (rel f)) = Some ic \<and>
            isObject ec \<and> isObject ic"
  then have eq: "processDataFile rt cr p s mk f =
           mk\<lparr>data := map_set (data mk) (normalizeKey (rel f))
                 (existing\<lparr>en_content := JSON_stringify rt (mergeWith ec ic), en_merged := True,
                           en_sources := [en_source existing, source_name s]\<rparr>),
              conflicts := conflicts mk @
                 [\<lparr>c_type = ''data'', c_key = normalizeKey (rel f), c_existing = None, c_incoming = None,
                   c_resolution = ''merged'', c_reason = ''Successfully merged data structures''\<rparr>]\<rparr>"
    using assms by (simp add: processDataFile_merged)
  show "map_option en_content (map_get (data (processDataFile rt cr p s mk f)) (normalizeKey (rel f)))
        = Some (JSON_stringify rt (mergeWith ec ic))"
    unfolding eq by (simp add: map_get_def map_set_def update_conv')
  show "\<exists>c. conflicts (processDataFile rt cr p s mk f) = conflicts mk @ [c] \<and> c_resolution c = ''merged''"
    unfolding eq by simp
next
  assume "\<forall>ec ic. parseContent rt (if en_content existing \<noteq> [] then en_content existing else en_path existing) = Some ec \<and>
             parseContent rt (if f_content f \<noteq> [] then f_content f else path_join p (rel f)) = Some ic
             \<longrightarrow> \<not> (isObject ec \<and> isObject ic)"
  with assms show "conflicts (processDataFile rt cr p s mk f) =
        conflicts mk @ [handleConflict cr ''data'' (normalizeKey (rel f)) existing s]"
    by (rule processDataFile_fallback)
next
  fix qs ps k
  assume "distinct (map fst (ps :: (string \<times> json) list))"
  then show "get_prop (mergeWith (JObj qs) (JObj ps)) k =
        (case map_of ps k of
           None \<Rightarrow> map_of qs k
         | Some srcValue \<Rightarrow> Some (merge_value (map_of qs k) srcValue))"
    by (rule mergeWith_lookup)
next
  fix qs ps :: "(string \<times> json) list"
  assume "distinct (map fst ps) \<and> fst ` set ps \<inter> fst ` set qs = {}"
  then show "mergeWith (JObj qs) (JObj ps) = JObj (qs @ ps)"
    by (simp add: mergeWith_def entries_of_def baseMerge_disjoint)
next
  fix xs ys
  show "merge_value (Some (JArr xs)) (JArr ys) = JArr (xs @ ys)" by simp
next
  fix a b
  show "merge_value (Some (JObj a)) (JObj b) = mergeWith (JObj a) (JObj b)"
    by (simp add: mergeWith_def entries_of_def)
qed

text \<open>
  The map \<open>a: 1\<close> of priority 1 meets the map \<open>b: 2\<close>: the stored content is the
  printed union. It meets the plain word: the record is the one of \<open>handleConflict\<close>.
\<close>

theorem data_collision_merge_or_fallback_witness:
  "map_get (data holding_d1) (normalizeKey (rel d2_file)) = Some d1_entry \<and>
   map_option en_content
     (map_get (data (processDataFile sample_rt ''priority'' ''/d2/core-data'' (src ''/d2'' 0) holding_d1 d2_file))
        (normalizeKey (rel d2_file))) = Some ''{a:1,b:2}'' \<and>
   conflicts (processDataFile sample_rt ''priority'' ''/d4/core-data'' (src ''/d4'' 0) holding_d1 d4_file)
     = conflicts holding_d1 @ [handleConflict ''priority'' ''data'' (normalizeKey (rel d4_file)) d1_entry (src ''/d4'' 0)] \<and>
   mergeWith (JObj [(''a'', JNum 1)]) (JObj [(''b'', JNum 2)]) = JObj [(''a'', JNum 1), (''b'', JNum 2)]"
proof -
  have h2: "map_get (data holding_d1) (normalizeKey (rel d2_file)) = Some d1_entry"
    by code_simp
  have h4: "map_get (data holding_d1) (normalizeKey (rel d4_file)) = Some d1_entry"
    by code_simp
  have pe: "parseContent sample_rt (if en_content d1_entry \<noteq> [] then en_content d1_entry else en_path d1_entry)
              = Some (JObj [(''a'', JNum 1)])"
    by code_simp
  have p2: "parseContent sample_rt (if f_content d2_file \<noteq> [] then f_content d2_file
              else path_join ''/d2/core-data'' (rel d2_file)) = Some (JObj [(''b'', JNum 2)])"
    by code_simp
  have p4: "parseContent sample_rt (if f_content d4_file \<noteq> [] then f_content d4_file
              else path_join ''/d4/core-data'' (rel d4_file)) = Some (JStr ''plain'')"
    by code_simp
  have pr: "JSON_stringify sample_rt (mergeWith (JObj [(''a'', JNum 1)]) (JObj [(''b'', JNum 2)])) = ''{a:1,b:2}''"
    by code_simp
  note T2 = data_collision_merge_or_fallback [OF h2, where rt = sample_rt and p = "''/d2/core-data''"
              and cr = "''priority''" and s = "src ''/d2'' 0"]
  note T4 = data_collision_merge_or_fallback [OF h4, where rt = sample_rt and p = "''/d4/core-data''"
              and cr = "''priority''" and s = "src ''/d4'' 0"]
  from T2 have "\<forall>ec ic. parseContent sample_rt (if en_content d1_entry \<noteq> [] then en_content d1_entry else en_path d1_entry) = Some ec \<and>
            parseContent sample_rt (if f_content d2_file \<noteq> [] then f_content d2_file else path_join ''/d2/core-data'' (rel d2_file)) = Some ic \<and>
            isObject ec \<and> isObject ic \<longrightarrow>
      map_option en_content (map_get (data (processDataFile sample_rt ''priority'' ''/d2/core-data'' (src ''/d2'' 0) holding_d1 d2_file)) (normalizeKey (rel d2_file)))
        = Some (JSON_stringify sample_rt (mergeWith ec ic))"
    by blast
  from this [rule_format, of "JObj [(''a'', JNum 1)]" "JObj [(''b'', JNum 2)]"] pe p2 pr
  have a: "map_option en_content
     (map_get (data (processDataFile sample_rt ''priority'' ''/d2/core-data'' (src ''/d2'' 0) holding_d1 d2_file))
        (normalizeKey (rel d2_file))) = Some ''{a:1,b:2}''"
    by simp
  have no: "\<forall>ec ic. parseContent sample_rt (if en_content d1_entry \<noteq> [] then en_content d1_entry else en_path d1_entry) = Some ec \<and>
             parseContent sample_rt (if f_content d4_file \<noteq> [] then f_content d4_file else path_join ''/d4/core-data'' (rel d4_file)) = Some ic
             \<longrightarrow> \<not> (isObject ec \<and> isObject ic)"
    using p4 by auto
  from T4 no have b: "conflicts (processDataFile sample_rt ''priority'' ''/d4/core-data'' (src ''/d4'' 0) holding_d1 d4_file)
     = conflicts holding_d1 @ [handleConflict ''priority'' ''data'' (normalizeKey (rel d4_file)) d1_entry (src ''/d4'' 0)]"
    by blast
  from T2 have "\<forall>qs ps. distinct (map fst ps) \<and> fst ` set ps \<inter> fst ` set qs = {} \<longrightarrow>
      mergeWith (JObj qs) (JObj ps) = JObj (qs @ ps)"
    by blast
  from this [rule_format, of "[(''b'', JNum 2)]" "[(''a'', JNum 1)]"]
  have c: "mergeWith (JObj [(''a'', JNum 1)]) (JObj [(''b'', JNum 2)]) = JObj [(''a'', JNum 1), (''b'', JNum 2)]"
    by simp
  from h2 a b c show ?thesis by blast
qed

text \<open>
  C5 as stated sends a side that is no map to the standard strategy. The YAML sequence
  \<open>- 1\<close> is no map, the strategy \<open>priority\<close> would answer \<open>keep\<close>, and the record
  says \<open>merged\<close>.
\<close>

theorem sequence_is_merged_counterexample:
  "parseContent sample_rt (f_content d3_file) = Some (JArr [JNum 1]) \<and>
   c_resolution (handleConflict ''priority'' ''data'' (normalizeKey (rel d3_file)) d1_entry (src ''/d3'' 0)) = ''keep'' \<and>
   map c_resolution (conflicts (processDataFile sample_rt ''priority'' ''/d3/core-data'' (src ''/d3'' 0) holding_d1 d3_file))
     = [''merged'']"
  by code_simp

subsection \<open>What a merged collision changes\<close>

text \<open>
  C10. When a collision in the \<open>data\<close> category is resolved as \<open>merged\<close>, the map
  keeps the existing entry under its key with three fields written: \<open>content\<close> is the
  output of \<open>JSON.stringify\<close> on the merged structure, whichever parser read the two
  sides, \<open>merged\<close> is true and \<open>sources\<close> names the two sources. Its \<open>source\<close>,
  \<open>priority\<close> and \<open>path\<close> are those of the entry that was there, not of the incoming
  source, and nothing else of the tree changes but the conflict list.
\<close>

theorem merged_entry_keeps_source_and_priority:
  assumes "map_get (data mk) (normalizeKey (rel f)) = Some existing"
      and "parseContent rt (if en_content existing \<noteq> [] then en_content existing else en_path existing) = Some ec"
      and "parseContent rt (if f_content f \<noteq> [] then f_content f else path_join p (rel f)) = Some ic"
      and "isObject ec" "isObject ic"
  shows "\<exists>e c. processDataFile rt cr p s mk f =
                 mk\<lparr>data := map_set (data mk) (normalizeKey (rel f)) e, conflicts := conflicts mk @ [c]\<rparr> \<and>
               c_resolution c = ''merged'' \<and>
               en_content e = JSON_stringify rt (mergeWith ec ic) \<and>
               en_merged e \<and> en_sources e = [en_source existing, source_name s] \<and>
               en_source e = en_source existing \<and> en_priority e = en_priority existing \<and>
               en_path e = en_path existing"
  unfolding processDataFile_merged [OF assms] by (intro exI conjI) (rule refl, simp_all)

text \<open>Two YAML maps: the entry of source \<open>/d1\<close>, priority 1, meets source \<open>/d2\<close>, priority 0.\<close>

theorem merged_entry_keeps_source_and_priority_witness:
  "map_get (data holding_d1) (normalizeKey (rel d2_file)) = Some d1_entry \<and>
   parseContent sample_rt (if en_content d1_entry \<noteq> [] then en_content d1_entry else en_path d1_entry)
     = Some (JObj [(''a'', JNum 1)]) \<and>
   parseContent sample_rt (if f_content d2_file \<noteq> [] then f_content d2_file
     else path_join ''/d2/core-data'' (rel d2_file)) = Some (JObj [(''b'', JNum 2)]) \<and>
   (\<exists>e c. processDataFile sample_rt ''priority'' ''/d2/core-data'' (src ''/d2'' 0) holding_d1 d2_file =
           holding_d1\<lparr>data := map_set (data holding_d1) (normalizeKey (rel d2_file)) e,
                      conflicts := conflicts holding_d1 @ [c]\<rparr> \<and>
           c_resolution c = ''merged'' \<and> en_content e = ''{a:1,b:2}'' \<and> en_merged e \<and>
           en_sources e = [''/d1'', ''/d2''] \<and> en_source e = ''/d1'' \<and> en_priority e = 1)"
proof -
  have h2: "map_get (data holding_d1) (normalizeKey (rel d2_file)) = Some d1_entry"
    by code_simp
  have pe: "parseContent sample_rt (if en_content d1_entry \<noteq> [] then en_content d1_entry else en_path d1_entry)
              = Some (JObj [(''a'', JNum 1)])"
    by code_simp
  have p2: "parseContent sample_rt (if f_content d2_file \<noteq> [] then f_content d2_file
              else path_join ''/d2/core-data'' (rel d2_file)) = Some (JObj [(''b'', JNum 2)])"
    by code_simp
  have pr: "JSON_stringify sample_rt (mergeWith (JObj [(''a'', JNum 1)]) (JObj [(''b'', JNum 2)])) = ''{a:1,b:2}''"
    by code_simp
  have v: "en_source d1_entry = ''/d1''" "en_priority d1_entry = 1" "source_name (src ''/d2'' 0) = ''/d2''"
    by (simp_all add: d1_entry_def new_entry_def src_def source_name_def)
  from merged_entry_keeps_source_and_priority [OF h2 pe p2, of "''priority''" "src ''/d2'' 0"]
  have "\<exists>e c. processDataFile sample_rt ''priority'' ''/d2/core-data'' (src ''/d2'' 0) holding_d1 d2_file =
           holding_d1\<lparr>data := map_set (data holding_d1) (normalizeKey (rel d2_file)) e,
                      conflicts := conflicts holding_d1 @ [c]\<rparr> \<and>
           c_resolution c = ''merged'' \<and> en_content e = ''{a:1,b:2}'' \<and> en_merged e \<and>
           en_sources e = [''/d1'', ''/d2''] \<and> en_source e = ''/d1'' \<and> en_priority e = 1"
    by (simp add: pr v) blast
  with h2 pe p2 show ?thesis by blast
qed

subsection \<open>The process functions, category by category\<close>

lemma processTemplate_collide:
  "processTemplate cr root s mk t =
     mk\<lparr>templates := fst (collide cr ''template'' s (templates mk)
                           (normalizeKey (rel t), new_entry (path_join root (rel t)) (f_content t) s)),
        conflicts := conflicts mk @ snd (collide cr ''template'' s (templates mk)
                           (normalizeKey (rel t), new_entry (path_join root (rel t)) (f_content t) s))\<rparr>"
  by (cases "map_get (templates mk) (normalizeKey (rel t))")
     (simp_all add: processTemplate_def collide_def Let_def)

lemma foldl_processTemplate:
  "foldl (processTemplate cr root s) mk files =
     mk\<lparr>templates := fst (collide_all cr ''template'' s (templates mk) (scanned_items root s files)),
        conflicts := conflicts mk @ snd (collide_all cr ''template'' s (templates mk) (scanned_items root s files))\<rparr>"
proof (induction files arbitrary: mk)
  case Nil
  show ?case by (simp add: scanned_items_def)
next
  case (Cons t files)
  have items: "scanned_items root s (t # files) =
      (normalizeKey (rel t), new_entry (path_join root (rel t)) (f_content t) s) # scanned_items root s files"
    by (simp add: scanned_items_def)
  have "foldl (processTemplate cr root s) mk (t # files) =
        foldl (processTemplate cr root s) (processTemplate cr root s mk t) files"
    by simp
  also have "\<dots> = (processTemplate cr root s mk t)
      \<lparr>templates := fst (collide_all cr ''template'' s (templates (processTemplate cr root s mk t)) (scanned_items root s files)),
       conflicts := conflicts (processTemplate cr root s mk t) @
          snd (collide_all cr ''template'' s (templates (processTemplate cr root s mk t)) (scanned_items root s files))\<rparr>"
    by (rule Cons.IH)
  also have "\<dots> = mk\<lparr>templates := fst (collide_all cr ''template'' s (templates mk) (scanned_items root s (t # files))),
        conflicts := conflicts mk @ snd (collide_all cr ''template'' s (templates mk) (scanned_items root s (t # files)))\<rparr>"
    unfolding items by (simp add: processTemplate_collide split_beta Let_def)
  finally show ?case .
qed

lemma processTemplates_collide:
  "processTemplates rt cr (ks_path s) mk s =
     mk\<lparr>templates := fst (collide_all cr ''template'' s (templates mk) (template_items rt s)),
        conflicts := conflicts mk @ snd (collide_all cr ''template'' s (templates mk) (template_items rt s))\<rparr>"
  by (simp add: processTemplates_def template_items_def foldl_processTemplate split: option.split)

lemma processWorkflow_collide:
  "processWorkflow cr root s mk t =
     mk\<lparr>workflows := fst (collide cr ''workflow'' s (workflows mk)
                           (normalizeKey (rel t), new_entry (path_join root (rel t)) (f_content t) s)),
        conflicts := conflicts mk @ snd (collide cr ''workflow'' s (workflows mk)
                           (normalizeKey (rel t), new_entry (path_join root (rel t)) (f_content t) s))\<rparr>"
  by (cases "map_get (workflows mk) (normalizeKey (rel t))")
     (simp_all add: processWorkflow_def collide_def Let_def)

lemma foldl_processWorkflow:
  "foldl (processWorkflow cr root s) mk files =
     mk\<lparr>workflows := fst (collide_all cr ''workflow'' s (workflows mk) (scanned_items root s files)),
        conflicts := conflicts mk @ snd (collide_all cr ''workflow'' s (workflows mk) (scanned_items root s files))\<rparr>"
proof (induction files arbitrary: mk)
  case Nil
  show ?case by (simp add: scanned_items_def)
next
  case (Cons t files)
  have items: "scanned_items root s (t # files) =
      (normalizeKey (rel t), new_entry (path_join root (rel t)) (f_content t) s) # scanned_items root s files"
    by (simp add: scanned_items_def)
  have "foldl (processWorkflow cr root s) mk (t # files) =
        foldl (processWorkflow cr root s) (processWorkflow cr root s mk t) files"
    by simp
  also have "\<dots> = (processWorkflow cr root s mk t)
      \<lparr>workflows := fst (collide_all cr ''workflow'' s (workflows (processWorkflow cr root s mk t)) (scanned_items root s files)),
       conflicts := conflicts (processWorkflow cr root s mk t) @
          snd (collide_all cr ''workflow'' s (workflows (processWorkflow cr root s mk t)) (scanned_items root s files))\<rparr>"
    by (rule Cons.IH)
  also have "\<dots> = mk\<lparr>workflows := fst (collide_all cr ''workflow'' s (workflows mk) (scanned_items root s (t # files))),
        conflicts := conflicts mk @ snd (collide_all cr ''workflow'' s (workflows mk) (scanned_items root s (t # files)))\<rparr>"
    unfolding items by (simp add: processWorkflow_collide split_beta Let_def)
  finally show ?case .
qed

lemma processWorkflows_collide:
  "processWorkflows rt cr (ks_path s) mk s =
     mk\<lparr>workflows := fst (collide_all cr ''workflow'' s (workflows mk) (workflow_items rt s)),
        conflicts := conflicts mk @ snd (collide_all cr ''workflow'' s (workflows mk) (workflow_items rt s))\<rparr>"
  by (simp add: processWorkflows_def workflow_items_def foldl_processWorkflow split: option.split)

lemma processDataFile_collide:
  "processDataFile rt cr root s mk f =
     mk\<lparr>data := fst (collide_data rt cr root s (data mk) f),
        conflicts := conflicts mk @ snd (collide_data rt cr root s (data mk) f)\<rparr>"
  by (cases "map_get (data mk) (normalizeKey (rel f))")
     (simp_all add: processDataFile_def collide_data_def Let_def split_beta)

lemma foldl_processDataFile:
  "foldl (processDataFile rt cr root s) mk files =
     mk\<lparr>data := fst (collide_data_all rt cr root s (data mk) files),
        conflicts := conflicts mk @ snd (collide_data_all rt cr root s (data mk) files)\<rparr>"
proof (induction files arbitrary: mk)
  case Nil
  show ?case by simp
next
  case (Cons f files)
  have "foldl (processDataFile rt cr root s) mk (f # files) =
        foldl (processDataFile rt cr root s) (processDataFile rt cr root s mk f) files"
    by simp
  also have "\<dots> = (processDataFile rt cr root s mk f)
      \<lparr>data := fst (collide_data_all rt cr root s (data (processDataFile rt cr root s mk f)) files),
       conflicts := conflicts (processDataFile rt cr root s mk f) @
          snd (collide_data_all rt cr root s (data (processDataFile rt cr root s mk f)) files)\<rparr>"
    by (rule Cons.IH)
  also have "\<dots> = mk\<lparr>data := fst (collide_data_all rt cr root s (data mk) (f # files)),
        conflicts := conflicts mk @ snd (collide_data_all rt cr root s (data mk) (f # files))\<rparr>"
    by (simp add: processDataFile_collide split_beta Let_def)
  finally show ?case .
qed

lemma processData_collide:
  "processData rt cr (ks_path s) mk s =
     mk\<lparr>data := fst (collide_data_all rt cr (path_join (ks_path s) ''core-data'') s (data mk) (data_files rt s)),
        conflicts := conflicts mk @
          snd (collide_data_all rt cr (path_join (ks_path s) ''core-data'') s (data mk) (data_files rt s))\<rparr>"
  by (simp add: processData_def data_files_def foldl_processDataFile split: option.split)

lemma processConfig_collide:
  "processConfig d cr root s mk n =
     mk\<lparr>configs := fst (collide_all cr ''config'' s (configs mk) (present_configs d root s [n])),
        conflicts := conflicts mk @ snd (collide_all cr ''config'' s (configs mk) (present_configs d root s [n]))\<rparr>"
proof (cases "config_file d n")
  case None
  then show ?thesis by (simp add: processConfig_def present_configs_def)
next
  case (Some content)
  then show ?thesis
    by (cases "map_get (configs mk) (normalizeKey n)")
       (simp_all add: processConfig_def present_configs_def collide_def Let_def)
qed

lemma collide_all_append:
  "collide_all cr ty s m (xs @ ys) =
     (fst (collide_all cr ty s (fst (collide_all cr ty s m xs)) ys),
      snd (collide_all cr ty s m xs) @ snd (collide_all cr ty s (fst (collide_all cr ty s m xs)) ys))"
  by (induction xs arbitrary: m) (simp_all add: split_beta Let_def)

lemma present_configs_Cons:
  "present_configs d root s (n # names) = present_configs d root s [n] @ present_configs d root s names"
  by (simp add: present_configs_def)

lemma foldl_processConfig:
  "foldl (processConfig d cr root s) mk names =
     mk\<lparr>configs := fst (collide_all cr ''config'' s (configs mk) (present_configs d root s names)),
        conflicts := conflicts mk @ snd (collide_all cr ''config'' s (configs mk) (present_configs d root s names))\<rparr>"
proof (induction names arbitrary: mk)
  case Nil
  show ?case by (simp add: present_configs_def)
next
  case (Cons n names)
  have "foldl (processConfig d cr root s) mk (n # names) =
        foldl (processConfig d cr root s) (processConfig d cr root s mk n) names"
    by simp
  also have "\<dots> = (processConfig d cr root s mk n)
      \<lparr>configs := fst (collide_all cr ''config'' s (configs (processConfig d cr root s mk n)) (present_configs d root s names)),
       conflicts := conflicts (processConfig d cr root s mk n) @
          snd (collide_all cr ''config'' s (configs (processConfig d cr root s mk n)) (present_configs d root s names))\<rparr>"
    by (rule Cons.IH)
  also have "\<dots> = mk\<lparr>configs := fst (collide_all cr ''config'' s (configs mk) (present_configs d root s (n # names))),
        conflicts := conflicts mk @ snd (collide_all cr ''config'' s (configs mk) (present_configs d root s (n # names)))\<rparr>"
    unfolding present_configs_Cons [of d root s n names] collide_all_append
    by (simp add: processConfig_collide)
  finally show ?case .
qed

lemma processConfigs_collide:
  "processConfigs rt cr (ks_path s) mk s =
     mk\<lparr>configs := fst (collide_all cr ''config'' s (configs mk) (config_items rt s)),
        conflicts := conflicts mk @ snd (collide_all cr ''config'' s (configs mk) (config_items rt s))\<rparr>"
  by (simp add: processConfigs_def config_items_def foldl_processConfig split: option.split)

text \<open>One source: each category map moves by its own artifacts, and the records follow in the order of the four loops.\<close>

lemma processKnowledgeSource_templates:
  "templates (processKnowledgeSource rt cr mk s) =
     fst (collide_all cr ''template'' s (templates mk) (template_items rt s))"
  by (cases "dir_at rt (ks_path s)")
     (simp_all add: processKnowledgeSource_def Let_def template_items_def
        processTemplates_collide processWorkflows_collide processData_collide processConfigs_collide)

lemma processKnowledgeSource_workflows:
  "workflows (processKnowledgeSource rt cr mk s) =
     fst (collide_all cr ''workflow'' s (workflows mk) (workflow_items rt s))"
  by (cases "dir_at rt (ks_path s)")
     (simp_all add: processKnowledgeSource_def Let_def workflow_items_def
        processTemplates_collide processWorkflows_collide processData_collide processConfigs_collide)

lemma processKnowledgeSource_data:
  "data (processKnowledgeSource rt cr mk s) =
     fst (collide_data_all rt cr (path_join (ks_path s) ''core-data'') s (data mk) (data_files rt s))"
  by (cases "dir_at rt (ks_path s)")
     (simp_all add: processKnowledgeSource_def Let_def data_files_def
        processTemplates_collide processWorkflows_collide processData_collide processConfigs_collide)

lemma processKnowledgeSource_configs:
  "configs (processKnowledgeSource rt cr mk s) =
     fst (collide_all cr ''config'' s (configs mk) (config_items rt s))"
  by (cases "dir_at rt (ks_path s)")
     (simp_all add: processKnowledgeSource_def Let_def config_items_def
        processTemplates_collide processWorkflows_collide processData_collide processConfigs_collide)

lemma processKnowledgeSource_conflicts:
  "conflicts (processKnowledgeSource rt cr mk s) =
     conflicts mk @
     snd (collide_all cr ''template'' s (templates mk) (template_items rt s)) @
     snd (collide_all cr ''workflow'' s (workflows mk) (workflow_items rt s)) @
     snd (collide_data_all rt cr (path_join (ks_path s) ''core-data'') s (data mk) (data_files rt s)) @
     snd (collide_all cr ''config'' s (configs mk) (config_items rt s))"
  by (cases "dir_at rt (ks_path s)")
     (simp_all add: processKnowledgeSource_def Let_def template_items_def workflow_items_def data_files_def
        config_items_def processTemplates_collide processWorkflows_collide processData_collide
        processConfigs_collide)

subsection \<open>One record for every collision\<close>

lemma map_get_None_keys: "map_get m k = None \<longleftrightarrow> k \<notin> keys_of m"
  by (simp add: map_get_def keys_of_def map_of_eq_None_iff)

lemma keys_of_map_set: "keys_of (map_set m k v) = insert k (keys_of m)"
  unfolding keys_of_def map_set_def by (induction m) auto

lemma collide_count:
  "length (snd (collide cr ty s m item)) = (if fst item \<in> keys_of m then 1 else 0)"
  by (cases "map_get m (fst item)")
     (auto simp add: collide_def Let_def map_get_None_keys [symmetric])

lemma collide_keys:
  "keys_of (fst (collide cr ty s m item)) = insert (fst item) (keys_of m)"
proof (cases "map_get m (fst item)")
  case None
  then show ?thesis by (simp add: collide_def keys_of_map_set)
next
  case (Some e)
  then have "fst item \<in> keys_of m" using map_get_None_keys [of m "fst item"] by simp
  with Some show ?thesis by (auto simp add: collide_def Let_def keys_of_map_set)
qed

lemma collide_all_count:
  "length (snd (collide_all cr ty s m items)) = collisions (keys_of m) (map fst items)"
  by (induction items arbitrary: m) (simp_all add: split_beta Let_def collide_count collide_keys)

lemma collide_all_keys:
  "keys_of (fst (collide_all cr ty s m items)) = keys_of m \<union> set (map fst items)"
  by (induction items arbitrary: m) (simp_all add: split_beta Let_def collide_keys)

lemma collide_data_count:
  "length (snd (collide_data rt cr root s m f)) = (if normalizeKey (rel f) \<in> keys_of m then 1 else 0)"
  by (cases "map_get m (normalizeKey (rel f))")
     (auto simp add: collide_data_def Let_def split_beta map_get_None_keys [symmetric])

lemma collide_data_keys:
  "keys_of (fst (collide_data rt cr root s m f)) = insert (normalizeKey (rel f)) (keys_of m)"
  by (cases "map_get m (normalizeKey (rel f))")
     (simp_all add: collide_data_def Let_def split_beta keys_of_map_set)

lemma collide_data_all_count:
  "length (snd (collide_data_all rt cr root s m files)) =
     collisions (keys_of m) (map (\<lambda>f. normalizeKey (rel f)) files)"
  by (induction files arbitrary: m) (simp_all add: split_beta Let_def collide_data_count collide_data_keys)

lemma collide_data_all_keys:
  "keys_of (fst (collide_data_all rt cr root s m files)) =
     keys_of m \<union> set (map (\<lambda>f. normalizeKey (rel f)) files)"
  by (induction files arbitrary: m) (simp_all add: split_beta Let_def collide_data_keys)

lemma collisions_append:
  "collisions seen (xs @ ys) = collisions seen xs + collisions (seen \<union> set xs) ys"
  by (induction xs arbitrary: seen) simp_all

lemma fold_keys:
  "keys_of (templates (foldl (processKnowledgeSource rt cr) mk srcs)) = keys_of (templates mk) \<union> set (template_keys rt srcs)"
  "keys_of (workflows (foldl (processKnowledgeSource rt cr) mk srcs)) = keys_of (workflows mk) \<union> set (workflow_keys rt srcs)"
  "keys_of (data (foldl (processKnowledgeSource rt cr) mk srcs)) = keys_of (data mk) \<union> set (data_keys rt srcs)"
  "keys_of (configs (foldl (processKnowledgeSource rt cr) mk srcs)) = keys_of (configs mk) \<union> set (config_keys rt srcs)"
proof (induction srcs arbitrary: mk)
  case Nil
  {
    case 1 show ?case by (simp add: template_keys_def)
  next
    case 2 show ?case by (simp add: workflow_keys_def)
  next
    case 3 show ?case by (simp add: data_keys_def)
  next
    case 4 show ?case by (simp add: config_keys_def)
  }
next
  case (Cons s srcs)
  {
    case 1 show ?case
      by (simp add: Cons.IH(1) processKnowledgeSource_templates collide_all_keys template_keys_def Un_assoc)
  next
    case 2 show ?case
      by (simp add: Cons.IH(2) processKnowledgeSource_workflows collide_all_keys workflow_keys_def Un_assoc)
  next
    case 3 show ?case
      by (simp add: Cons.IH(3) processKnowledgeSource_data collide_data_all_keys data_keys_def Un_assoc)
  next
    case 4 show ?case
      by (simp add: Cons.IH(4) processKnowledgeSource_configs collide_all_keys config_keys_def Un_assoc)
  }
qed

lemma fold_count:
  "length (conflicts (foldl (processKnowledgeSource rt cr) mk srcs)) =
     length (conflicts mk) +
     collisions (keys_of (templates mk)) (template_keys rt srcs) +
     collisions (keys_of (workflows mk)) (workflow_keys rt srcs) +
     collisions (keys_of (data mk)) (data_keys rt srcs) +
     collisions (keys_of (configs mk)) (config_keys rt srcs)"
proof (induction srcs arbitrary: mk)
  case Nil
  show ?case by (simp add: template_keys_def workflow_keys_def data_keys_def config_keys_def)
next
  case (Cons s srcs)
  have t: "template_keys rt (s # srcs) = map fst (template_items rt s) @ template_keys rt srcs"
    by (simp add: template_keys_def)
  have w: "workflow_keys rt (s # srcs) = map fst (workflow_items rt s) @ workflow_keys rt srcs"
    by (simp add: workflow_keys_def)
  have d: "data_keys rt (s # srcs) = map (\<lambda>f. normalizeKey (rel f)) (data_files rt s) @ data_keys rt srcs"
    by (simp add: data_keys_def)
  have c: "config_keys rt (s # srcs) = map fst (config_items rt s) @ config_keys rt srcs"
    by (simp add: config_keys_def)
  show ?case
    unfolding t w d c collisions_append
    by (simp add: Cons.IH processKnowledgeSource_conflicts processKnowledgeSource_templates
          processKnowledgeSource_workflows processKnowledgeSource_data processKnowledgeSource_configs
          collide_all_count collide_all_keys collide_data_all_count collide_data_all_keys)
qed

text \<open>
  C9. Under every strategy, the conflict list of a merge has one record for each
  collision: its length is the number of artifacts, over the four categories and along
  the sources in the order they are processed, that arrive under a key already taken in
  their category.
\<close>

theorem one_record_per_collision:
  "length (conflicts (mergeKnowledgeSources rt cr srcs)) =
     collisions {} (template_keys rt (sortedSources srcs)) +
     collisions {} (workflow_keys rt (sortedSources srcs)) +
     collisions {} (data_keys rt (sortedSources srcs)) +
     collisions {} (config_keys rt (sortedSources srcs))"
  by (simp add: mergeKnowledgeSources_def fold_count empty_knowledge_def keys_of_def)

text \<open>Three sources with the same template: the second and the third collide.\<close>

theorem one_record_per_collision_witness:
  "collisions {} (template_keys sample_rt (sortedSources three_sources)) = 2 \<and>
   length (conflicts (mergeKnowledgeSources sample_rt ''manual'' three_sources)) = 2"
proof -
  have t: "collisions {} (template_keys sample_rt (sortedSources three_sources)) = 2"
    by code_simp
  have w: "collisions {} (workflow_keys sample_rt (sortedSources three_sources)) = 0"
    by code_simp
  have d: "collisions {} (data_keys sample_rt (sortedSources three_sources)) = 0"
    by code_simp
  have c: "collisions {} (config_keys sample_rt (sortedSources three_sources)) = 0"
    by code_simp
  from one_record_per_collision [of sample_rt "''manual''" three_sources] t w d c
  show ?thesis by simp
qed

subsection \<open>The priority strategy along sorted sources\<close>

lemma handleConflict_type: "c_type (handleConflict cr ty key existing s) = ty"
  by (simp add: handleConflict_def Let_def)

lemma handleConflict_key: "c_key (handleConflict cr ty key existing s) = key"
  by (simp add: handleConflict_def Let_def)

lemma collide_type: "c \<in> set (snd (collide cr ty s m item)) \<Longrightarrow> c_type c = ty"
  by (cases "map_get m (fst item)") (auto simp add: collide_def Let_def handleConflict_type)

lemma collide_all_type: "c \<in> set (snd (collide_all cr ty s m items)) \<Longrightarrow> c_type c = ty"
  by (induction items arbitrary: m) (auto simp add: split_beta Let_def collide_type)

lemma handleDataConflict_type: "c_type (snd (handleDataConflict rt cr key existing f ipath s)) = ''data''"
  by (simp add: handleDataConflict_def Let_def handleConflict_type split: option.split)

lemma collide_data_type: "c \<in> set (snd (collide_data rt cr root s m f)) \<Longrightarrow> c_type c = ''data''"
  by (cases "map_get m (normalizeKey (rel f))")
     (auto simp add: collide_data_def Let_def split_beta handleDataConflict_type)

lemma collide_data_all_type: "c \<in> set (snd (collide_data_all rt cr root s m files)) \<Longrightarrow> c_type c = ''data''"
  by (induction files arbitrary: m) (auto simp add: split_beta Let_def collide_data_type)

lemma map_get_Some_mem: "map_get m k = Some e \<Longrightarrow> e \<in> snd ` set m"
  unfolding map_get_def by (metis map_of_SomeD snd_conv image_eqI)

lemma at_least_map_set:
  "at_least n m \<Longrightarrow> n \<le> en_priority e \<Longrightarrow> at_least n (map_set m k e)"
  unfolding at_least_def map_set_def by (induction m) auto

lemma at_least_mono: "at_least n m \<Longrightarrow> n' \<le> n \<Longrightarrow> at_least n' m"
  unfolding at_least_def by force

text \<open>One artifact under \<open>priority\<close>, when no entry of the map is below its source.\<close>

lemma collide_priority:
  assumes "at_least (ks_priority s) m"
  shows "collide ''priority'' ty s m item =
           (case map_get m (fst item) of
              Some existing \<Rightarrow> (m, [handleConflict ''priority'' ty (fst item) existing s])
            | None \<Rightarrow> (map_set m (fst item) (snd item), []))"
    and "\<forall>c \<in> set (snd (collide ''priority'' ty s m item)). c_resolution c = ''keep''"
proof -
  have keep: "c_resolution (handleConflict ''priority'' ty key existing s) = ''keep''"
    if "map_get m key = Some existing" for key existing
  proof -
    from that have "existing \<in> snd ` set m" by (rule map_get_Some_mem)
    with assms have "ks_priority s \<le> en_priority existing" unfolding at_least_def by blast
    then show ?thesis by (simp add: handleConflict_def Let_def)
  qed
  show "collide ''priority'' ty s m item =
           (case map_get m (fst item) of
              Some existing \<Rightarrow> (m, [handleConflict ''priority'' ty (fst item) existing s])
            | None \<Rightarrow> (map_set m (fst item) (snd item), []))"
    by (cases "map_get m (fst item)") (simp_all add: collide_def Let_def keep)
  show "\<forall>c \<in> set (snd (collide ''priority'' ty s m item)). c_resolution c = ''keep''"
    by (cases "map_get m (fst item)") (simp_all add: collide_def Let_def keep)
qed

lemma map_get_map_set: "map_get (map_set m k v) k' = (if k' = k then Some v else map_get m k')"
  by (simp add: map_get_def map_set_def update_conv')

lemma collide_all_priority:
  assumes "at_least (ks_priority s) m"
      and "\<forall>e \<in> snd ` set items. en_priority e = ks_priority s"
  shows "map_get (fst (collide_all ''priority'' ty s m items)) k =
           (case map_get m k of Some e \<Rightarrow> Some e | None \<Rightarrow> map_of items k)"
    and "\<forall>c \<in> set (snd (collide_all ''priority'' ty s m items)). c_resolution c = ''keep''"
    and "at_least (ks_priority s) (fst (collide_all ''priority'' ty s m items))"
  using assms
proof (induction items arbitrary: m)
  case Nil
  {
    case 1 show ?case by (simp split: option.split)
  next
    case 2 show ?case by simp
  next
    case 3 then show ?case by simp
  }
next
  case (Cons item items)
  {
    case 1
    let ?m1 = "fst (collide ''priority'' ty s m item)"
    from 1 have al: "at_least (ks_priority s) m" and pr: "\<forall>e \<in> snd ` set items. en_priority e = ks_priority s"
      and pi: "en_priority (snd item) = ks_priority s" by auto
    have m1: "?m1 = (case map_get m (fst item) of Some existing \<Rightarrow> m | None \<Rightarrow> map_set m (fst item) (snd item))"
      by (simp add: collide_priority(1) [OF al] split: option.split)
    have al1: "at_least (ks_priority s) ?m1"
      unfolding m1 using al pi by (simp add: at_least_map_set split: option.split)
    have "map_get (fst (collide_all ''priority'' ty s m (item # items))) k =
          map_get (fst (collide_all ''priority'' ty s ?m1 items)) k"
      by (simp add: split_beta Let_def)
    also have "\<dots> = (case map_get ?m1 k of Some e \<Rightarrow> Some e | None \<Rightarrow> map_of items k)"
      by (rule Cons.IH(1) [OF al1 pr])
    also have "\<dots> = (case map_get m k of Some e \<Rightarrow> Some e | None \<Rightarrow> map_of (item # items) k)"
      unfolding m1 by (cases item) (auto simp add: map_get_map_set split: option.split)
    finally show ?case .
  next
    case 2
    let ?m1 = "fst (collide ''priority'' ty s m item)"
    from 2 have al: "at_least (ks_priority s) m" and pr: "\<forall>e \<in> snd ` set items. en_priority e = ks_priority s"
      and pi: "en_priority (snd item) = ks_priority s" by auto
    have m1: "?m1 = (case map_get m (fst item) of Some existing \<Rightarrow> m | None \<Rightarrow> map_set m (fst item) (snd item))"
      by (simp add: collide_priority(1) [OF al] split: option.split)
    have al1: "at_least (ks_priority s) ?m1"
      unfolding m1 using al pi by (simp add: at_least_map_set split: option.split)
    from Cons.IH(2) [OF al1 pr] collide_priority(2) [OF al, of ty item]
    show ?case by (simp add: split_beta Let_def ball_Un)
  next
    case 3
    let ?m1 = "fst (collide ''priority'' ty s m item)"
    from 3 have al: "at_least (ks_priority s) m" and pr: "\<forall>e \<in> snd ` set items. en_priority e = ks_priority s"
      and pi: "en_priority (snd item) = ks_priority s" by auto
    have m1: "?m1 = (case map_get m (fst item) of Some existing \<Rightarrow> m | None \<Rightarrow> map_set m (fst item) (snd item))"
      by (simp add: collide_priority(1) [OF al] split: option.split)
    have al1: "at_least (ks_priority s) ?m1"
      unfolding m1 using al pi by (simp add: at_least_map_set split: option.split)
    from Cons.IH(3) [OF al1 pr] show ?case by (simp add: split_beta Let_def)
  }
qed

lemma new_entry_priority: "en_priority (new_entry p c s) = ks_priority s"
  by (simp add: new_entry_def)

lemma scanned_items_priority: "\<forall>e \<in> snd ` set (scanned_items root s files). en_priority e = ks_priority s"
  by (auto simp add: scanned_items_def new_entry_priority)

lemma template_items_priority: "\<forall>e \<in> snd ` set (template_items rt s). en_priority e = ks_priority s"
proof (cases "dir_at rt (ks_path s)")
  case None
  then show ?thesis by (simp add: template_items_def)
next
  case (Some d)
  then show ?thesis
    by (cases "templates_dir d") (simp_all add: template_items_def scanned_items_priority)
qed

lemma workflow_items_priority: "\<forall>e \<in> snd ` set (workflow_items rt s). en_priority e = ks_priority s"
proof (cases "dir_at rt (ks_path s)")
  case None
  then show ?thesis by (simp add: workflow_items_def)
next
  case (Some d)
  then show ?thesis
    by (cases "workflows_dir d") (simp_all add: workflow_items_def scanned_items_priority)
qed

lemma config_items_priority: "\<forall>e \<in> snd ` set (config_items rt s). en_priority e = ks_priority s"
  by (auto simp add: config_items_def present_configs_def new_entry_priority split: option.splits)

lemma sortedSources_sorted: "sorted_wrt (\<lambda>a b. ks_priority b \<le> ks_priority a) (sortedSources srcs)"
proof -
  have "sorted (map (\<lambda>s. - ks_priority s) (sortedSources srcs))"
    unfolding sortedSources_def by (rule sorted_sort_key)
  then show ?thesis by (simp add: sorted_map)
qed

lemma sortedSources_set: "set (sortedSources srcs) = set srcs"
  by (simp add: sortedSources_def)

text \<open>
  Along sources in descending order of priority the first artifact under a key stays:
  stated once for any category map that moves by \<open>collide_all\<close>.
\<close>

lemma fold_first_writer:
  fixes get :: "merged_knowledge \<Rightarrow> (string, entry) js_map"
    and items :: "knowledge_source \<Rightarrow> (string \<times> entry) list"
  assumes get: "\<And>mk s. get (processKnowledgeSource rt ''priority'' mk s) =
                   fst (collide_all ''priority'' ty s (get mk) (items s))"
      and pri: "\<And>s. \<forall>e \<in> snd ` set (items s). en_priority e = ks_priority s"
  shows "sorted_wrt (\<lambda>a b. ks_priority b \<le> ks_priority a) srcs \<Longrightarrow>
         \<forall>s \<in> set srcs. at_least (ks_priority s) (get mk) \<Longrightarrow>
         map_get (get (foldl (processKnowledgeSource rt ''priority'') mk srcs)) k =
           (case map_get (get mk) k of Some e \<Rightarrow> Some e | None \<Rightarrow> first_item items srcs k)"
proof (induction srcs arbitrary: mk)
  case Nil
  show ?case by (simp split: option.split)
next
  case (Cons s srcs)
  let ?mk1 = "processKnowledgeSource rt ''priority'' mk s"
  from Cons.prems have al: "at_least (ks_priority s) (get mk)" by simp
  from Cons.prems have so: "sorted_wrt (\<lambda>a b. ks_priority b \<le> ks_priority a) srcs"
    and le: "\<forall>s' \<in> set srcs. ks_priority s' \<le> ks_priority s" by simp_all
  have al1: "at_least (ks_priority s) (get ?mk1)"
    unfolding get by (rule collide_all_priority(3) [OF al pri])
  have al': "\<forall>s' \<in> set srcs. at_least (ks_priority s') (get ?mk1)"
    using al1 le at_least_mono by blast
  have look: "map_get (get ?mk1) k = (case map_get (get mk) k of Some e \<Rightarrow> Some e | None \<Rightarrow> map_of (items s) k)"
    unfolding get by (rule collide_all_priority(1) [OF al pri])
  have "map_get (get (foldl (processKnowledgeSource rt ''priority'') mk (s # srcs))) k =
        map_get (get (foldl (processKnowledgeSource rt ''priority'') ?mk1 srcs)) k"
    by simp
  also have "\<dots> = (case map_get (get ?mk1) k of Some e \<Rightarrow> Some e | None \<Rightarrow> first_item items srcs k)"
    by (rule Cons.IH [OF so al'])
  also have "\<dots> = (case map_get (get mk) k of Some e \<Rightarrow> Some e | None \<Rightarrow> first_item items (s # srcs) k)"
    unfolding look by (simp split: option.split)
  finally show ?case .
qed

lemma first_item_highest:
  assumes "sorted_wrt (\<lambda>a b. ks_priority b \<le> ks_priority a) srcs"
      and "s \<in> set srcs"
      and "map_of (items s) k = Some e"
      and "\<forall>s' \<in> set srcs. s' \<noteq> s \<and> map_of (items s') k \<noteq> None \<longrightarrow> ks_priority s' < ks_priority s"
  shows "first_item items srcs k = Some e"
  using assms
proof (induction srcs)
  case Nil
  then show ?case by simp
next
  case (Cons x srcs)
  show ?case
  proof (cases "x = s")
    case True
    with Cons.prems(3) show ?thesis by simp
  next
    case False
    with Cons.prems(2) have mem: "s \<in> set srcs" by simp
    from Cons.prems(1) mem have "ks_priority s \<le> ks_priority x" by simp
    with Cons.prems(4) False have none: "map_of (items x) k = None" by force
    from Cons.prems(1) have so: "sorted_wrt (\<lambda>a b. ks_priority b \<le> ks_priority a) srcs" by simp
    from Cons.prems(4) have rest: "\<forall>s' \<in> set srcs. s' \<noteq> s \<and> map_of (items s') k \<noteq> None \<longrightarrow> ks_priority s' < ks_priority s"
      by simp
    from Cons.IH [OF so mem Cons.prems(3) rest] none show ?thesis by simp
  qed
qed

lemma at_least_empty: "at_least n []"
  by (simp add: at_least_def)

lemma merge_highest:
  fixes get :: "merged_knowledge \<Rightarrow> (string, entry) js_map"
  assumes get: "\<And>mk s. get (processKnowledgeSource rt ''priority'' mk s) =
                   fst (collide_all ''priority'' ty s (get mk) (items s))"
      and pri: "\<And>s. \<forall>e \<in> snd ` set (items s). en_priority e = ks_priority s"
      and emp: "get empty_knowledge = []"
      and mem: "s \<in> set srcs"
      and def: "map_of (items s) k = Some e"
      and hi: "\<forall>s' \<in> set srcs. s' \<noteq> s \<and> map_of (items s') k \<noteq> None \<longrightarrow> ks_priority s' < ks_priority s"
  shows "map_get (get (mergeKnowledgeSources rt ''priority'' srcs)) k = Some e"
proof -
  have al: "\<forall>s \<in> set (sortedSources srcs). at_least (ks_priority s) (get empty_knowledge)"
    by (simp add: emp at_least_empty)
  have m: "s \<in> set (sortedSources srcs)"
    using mem by (simp add: sortedSources_set)
  have h: "\<forall>s' \<in> set (sortedSources srcs). s' \<noteq> s \<and> map_of (items s') k \<noteq> None \<longrightarrow> ks_priority s' < ks_priority s"
    using hi by (simp add: sortedSources_set)
  have "map_get (get (mergeKnowledgeSources rt ''priority'' srcs)) k =
          (case map_get (get empty_knowledge) k of Some e \<Rightarrow> Some e
           | None \<Rightarrow> first_item items (sortedSources srcs) k)"
    unfolding mergeKnowledgeSources_def
    by (rule fold_first_writer [of get rt ty items, OF get pri sortedSources_sorted al])
  also have "\<dots> = first_item items (sortedSources srcs) k"
    by (simp add: emp map_get_def)
  also have "\<dots> = Some e"
    by (rule first_item_highest [OF sortedSources_sorted m def h])
  finally show ?thesis .
qed

lemmas merge_highest_templates =
  merge_highest [of templates _ "''template''" "template_items _", OF processKnowledgeSource_templates template_items_priority]

lemmas merge_highest_workflows =
  merge_highest [of workflows _ "''workflow''" "workflow_items _", OF processKnowledgeSource_workflows workflow_items_priority]

lemmas merge_highest_configs =
  merge_highest [of configs _ "''config''" "config_items _", OF processKnowledgeSource_configs config_items_priority]

lemma handleDataConflict_priority:
  "en_priority (fst (handleDataConflict rt cr key existing f ipath s)) = en_priority existing"
  by (simp add: handleDataConflict_def Let_def split: option.split)

lemma handleDataConflict_resolution:
  "c_resolution (snd (handleDataConflict rt cr key existing f ipath s)) = ''merged'' \<or>
   snd (handleDataConflict rt cr key existing f ipath s) = handleConflict cr ''data'' key existing s"
  by (simp add: handleDataConflict_def Let_def split: option.split)

lemma collide_data_priority:
  assumes "at_least (ks_priority s) m"
  shows "at_least (ks_priority s) (fst (collide_data rt ''priority'' root s m f))"
    and "\<forall>c \<in> set (snd (collide_data rt ''priority'' root s m f)).
           c_resolution c = ''keep'' \<or> c_resolution c = ''merged''"
proof -
  show "at_least (ks_priority s) (fst (collide_data rt ''priority'' root s m f))"
  proof (cases "map_get m (normalizeKey (rel f))")
    case None
    with assms show ?thesis
      by (simp add: collide_data_def at_least_map_set new_entry_priority)
  next
    case (Some existing)
    then have "existing \<in> snd ` set m" by (rule map_get_Some_mem)
    with assms have "ks_priority s \<le> en_priority existing" unfolding at_least_def by blast
    with Some assms show ?thesis
      by (simp add: collide_data_def split_beta Let_def at_least_map_set handleDataConflict_priority)
  qed
  show "\<forall>c \<in> set (snd (collide_data rt ''priority'' root s m f)).
           c_resolution c = ''keep'' \<or> c_resolution c = ''merged''"
  proof (cases "map_get m (normalizeKey (rel f))")
    case None
    then show ?thesis by (simp add: collide_data_def)
  next
    case (Some existing)
    then have "existing \<in> snd ` set m" by (rule map_get_Some_mem)
    with assms have "ks_priority s \<le> en_priority existing" unfolding at_least_def by blast
    then have "c_resolution (handleConflict ''priority'' ''data'' (normalizeKey (rel f)) existing s) = ''keep''"
      by (simp add: handleConflict_def Let_def)
    with Some handleDataConflict_resolution
      [of rt "''priority''" "normalizeKey (rel f)" existing f "path_join root (rel f)" s]
    show ?thesis
      by (auto simp add: collide_data_def split_beta Let_def)
  qed
qed

lemma collide_data_all_priority:
  assumes "at_least (ks_priority s) m"
  shows "at_least (ks_priority s) (fst (collide_data_all rt ''priority'' root s m files))"
    and "\<forall>c \<in> set (snd (collide_data_all rt ''priority'' root s m files)).
           c_resolution c = ''keep'' \<or> c_resolution c = ''merged''"
  using assms
proof (induction files arbitrary: m)
  case Nil
  {
    case 1 then show ?case by simp
  next
    case 2 show ?case by simp
  }
next
  case (Cons f files)
  {
    case 1
    from Cons.IH(1) [OF collide_data_priority(1) [OF 1]] show ?case
      by (simp add: split_beta Let_def)
  next
    case 2
    from Cons.IH(2) [OF collide_data_priority(1) [OF 2], of rt root] collide_data_priority(2) [OF 2, of rt root f]
    show ?case
      by (simp add: split_beta Let_def ball_Un)
  }
qed

lemma fold_settled:
  "sorted_wrt (\<lambda>a b. ks_priority b \<le> ks_priority a) srcs \<Longrightarrow>
   \<forall>s \<in> set srcs. at_least (ks_priority s) (templates mk) \<and> at_least (ks_priority s) (workflows mk) \<and>
                    at_least (ks_priority s) (data mk) \<and> at_least (ks_priority s) (configs mk) \<Longrightarrow>
   \<forall>c \<in> set (conflicts mk). settled c \<Longrightarrow>
   \<forall>c \<in> set (conflicts (foldl (processKnowledgeSource rt ''priority'') mk srcs)). settled c"
proof (induction srcs arbitrary: mk)
  case Nil
  then show ?case by simp
next
  case (Cons s srcs)
  let ?mk1 = "processKnowledgeSource rt ''priority'' mk s"
  from Cons.prems(2) have t: "at_least (ks_priority s) (templates mk)" and w: "at_least (ks_priority s) (workflows mk)"
    and d: "at_least (ks_priority s) (data mk)" and c: "at_least (ks_priority s) (configs mk)" by simp_all
  from Cons.prems(1) have so: "sorted_wrt (\<lambda>a b. ks_priority b \<le> ks_priority a) srcs"
    and le: "\<forall>s' \<in> set srcs. ks_priority s' \<le> ks_priority s" by simp_all
  have t1: "at_least (ks_priority s) (templates ?mk1)"
    unfolding processKnowledgeSource_templates by (rule collide_all_priority(3) [OF t template_items_priority])
  have w1: "at_least (ks_priority s) (workflows ?mk1)"
    unfolding processKnowledgeSource_workflows by (rule collide_all_priority(3) [OF w workflow_items_priority])
  have d1: "at_least (ks_priority s) (data ?mk1)"
    unfolding processKnowledgeSource_data by (rule collide_data_all_priority(1) [OF d])
  have c1: "at_least (ks_priority s) (configs ?mk1)"
    unfolding processKnowledgeSource_configs by (rule collide_all_priority(3) [OF c config_items_priority])
  have al: "\<forall>s' \<in> set srcs. at_least (ks_priority s') (templates ?mk1) \<and> at_least (ks_priority s') (workflows ?mk1) \<and>
                    at_least (ks_priority s') (data ?mk1) \<and> at_least (ks_priority s') (configs ?mk1)"
    using t1 w1 d1 c1 le at_least_mono by blast
  have kt: "\<forall>c \<in> set (snd (collide_all ''priority'' ''template'' s (templates mk) (template_items rt s))). settled c"
    using collide_all_priority(2) [OF t template_items_priority] by (simp add: settled_def)
  have kw: "\<forall>c \<in> set (snd (collide_all ''priority'' ''workflow'' s (workflows mk) (workflow_items rt s))). settled c"
    using collide_all_priority(2) [OF w workflow_items_priority] by (simp add: settled_def)
  have kc: "\<forall>c \<in> set (snd (collide_all ''priority'' ''config'' s (configs mk) (config_items rt s))). settled c"
    using collide_all_priority(2) [OF c config_items_priority] by (simp add: settled_def)
  have kd: "\<forall>c \<in> set (snd (collide_data_all rt ''priority'' (path_join (ks_path s) ''core-data'') s (data mk) (data_files rt s))). settled c"
    using collide_data_all_priority(2) [OF d] collide_data_all_type by (auto simp add: settled_def)
  have st: "\<forall>c \<in> set (conflicts ?mk1). settled c"
    unfolding processKnowledgeSource_conflicts using Cons.prems(3) kt kw kd kc by (simp add: ball_Un)
  from Cons.IH [OF so al st] show ?case by simp
qed

lemma merge_settled:
  "\<forall>c \<in> set (conflicts (mergeKnowledgeSources rt ''priority'' srcs)). settled c"
  unfolding mergeKnowledgeSources_def
  by (rule fold_settled [OF sortedSources_sorted]) (simp_all add: empty_knowledge_def at_least_empty)

subsection \<open>The highest priority is stored first and kept\<close>

lemma new_entry_source: "en_source (new_entry p c s) = source_name s"
  by (simp add: new_entry_def)

lemma scanned_items_source: "\<forall>e \<in> snd ` set (scanned_items root s files). en_source e = source_name s"
  by (auto simp add: scanned_items_def new_entry_source)

lemma template_items_source: "\<forall>e \<in> snd ` set (template_items rt s). en_source e = source_name s"
proof (cases "dir_at rt (ks_path s)")
  case None
  then show ?thesis by (simp add: template_items_def)
next
  case (Some d)
  then show ?thesis
    by (cases "templates_dir d") (simp_all add: template_items_def scanned_items_source)
qed

lemma workflow_items_source: "\<forall>e \<in> snd ` set (workflow_items rt s). en_source e = source_name s"
proof (cases "dir_at rt (ks_path s)")
  case None
  then show ?thesis by (simp add: workflow_items_def)
next
  case (Some d)
  then show ?thesis
    by (cases "workflows_dir d") (simp_all add: workflow_items_def scanned_items_source)
qed

lemma config_items_source: "\<forall>e \<in> snd ` set (config_items rt s). en_source e = source_name s"
  by (auto simp add: config_items_def present_configs_def new_entry_source split: option.splits)

text \<open>
  C2, as the code has it. Under the \<open>priority\<close> strategy, when a source brings an
  artifact under a key of the \<open>templates\<close>, \<open>workflows\<close> or \<open>configs\<close> category
  and every other source that brings one under that key has a strictly lower priority,
  the merged tree holds the entry of that source under the key, with its name and its
  priority. The sources are processed from the highest priority down, so the entry is
  stored first and every later collision keeps it: every conflict record outside the
  \<open>data\<close> category has resolution \<open>keep\<close>.
\<close>

theorem highest_priority_source_is_kept:
  "(s \<in> set srcs \<and> map_of (template_items rt s) k = Some e \<and>
    (\<forall>s' \<in> set srcs. s' \<noteq> s \<and> map_of (template_items rt s') k \<noteq> None \<longrightarrow> ks_priority s' < ks_priority s) \<longrightarrow>
      map_get (templates (mergeKnowledgeSources rt ''priority'' srcs)) k = Some e \<and>
      en_source e = source_name s \<and> en_priority e = ks_priority s) \<and>
   (s \<in> set srcs \<and> map_of (workflow_items rt s) k = Some e \<and>
    (\<forall>s' \<in> set srcs. s' \<noteq> s \<and> map_of (workflow_items rt s') k \<noteq> None \<longrightarrow> ks_priority s' < ks_priority s) \<longrightarrow>
      map_get (workflows (mergeKnowledgeSources rt ''priority'' srcs)) k = Some e \<and>
      en_source e = source_name s \<and> en_priority e = ks_priority s) \<and>
   (s \<in> set srcs \<and> map_of (config_items rt s) k = Some e \<and>
    (\<forall>s' \<in> set srcs. s' \<noteq> s \<and> map_of (config_items rt s') k \<noteq> None \<longrightarrow> ks_priority s' < ks_priority s) \<longrightarrow>
      map_get (configs (mergeKnowledgeSources rt ''priority'' srcs)) k = Some e \<and>
      en_source e = source_name s \<and> en_priority e = ks_priority s) \<and>
   (\<forall>c \<in> set (conflicts (mergeKnowledgeSources rt ''priority'' srcs)).
      c_type c \<noteq> ''data'' \<longrightarrow> c_resolution c = ''keep'')"
proof (intro conjI impI ballI)
  assume h: "s \<in> set srcs \<and> map_of (template_items rt s) k = Some e \<and>
    (\<forall>s' \<in> set srcs. s' \<noteq> s \<and> map_of (template_items rt s') k \<noteq> None \<longrightarrow> ks_priority s' < ks_priority s)"
  then have e: "e \<in> snd ` set (template_items rt s)"
    by (metis map_of_SomeD snd_conv image_eqI)
  from h have mem: "s \<in> set srcs" and def: "map_of (template_items rt s) k = Some e"
    and hi: "\<forall>s' \<in> set srcs. s' \<noteq> s \<and> map_of (template_items rt s') k \<noteq> None \<longrightarrow> ks_priority s' < ks_priority s"
    by simp_all
  show "map_get (templates (mergeKnowledgeSources rt ''priority'' srcs)) k = Some e"
    by (rule merge_highest_templates [OF _ mem def hi]) (simp add: empty_knowledge_def)
  from e show "en_priority e = ks_priority s"
    using template_items_priority by blast
  from e show "en_source e = source_name s"
    using template_items_source by blast
next
  assume h: "s \<in> set srcs \<and> map_of (workflow_items rt s) k = Some e \<and>
    (\<forall>s' \<in> set srcs. s' \<noteq> s \<and> map_of (workflow_items rt s') k \<noteq> None \<longrightarrow> ks_priority s' < ks_priority s)"
  then have e: "e \<in> snd ` set (workflow_items rt s)"
    by (metis map_of_SomeD snd_conv image_eqI)
  from h have mem: "s \<in> set srcs" and def: "map_of (workflow_items rt s) k = Some e"
    and hi: "\<forall>s' \<in> set srcs. s' \<noteq> s \<and> map_of (workflow_items rt s') k \<noteq> None \<longrightarrow> ks_priority s' < ks_priority s"
    by simp_all
  show "map_get (workflows (mergeKnowledgeSources rt ''priority'' srcs)) k = Some e"
    by (rule merge_highest_workflows [OF _ mem def hi]) (simp add: empty_knowledge_def)
  from e show "en_priority e = ks_priority s"
    using workflow_items_priority by blast
  from e show "en_source e = source_name s"
    using workflow_items_source by blast
next
  assume h: "s \<in> set srcs \<and> map_of (config_items rt s) k = Some e \<and>
    (\<forall>s' \<in> set srcs. s' \<noteq> s \<and> map_of (config_items rt s') k \<noteq> None \<longrightarrow> ks_priority s' < ks_priority s)"
  then have e: "e \<in> snd ` set (config_items rt s)"
    by (metis map_of_SomeD snd_conv image_eqI)
  from h have mem: "s \<in> set srcs" and def: "map_of (config_items rt s) k = Some e"
    and hi: "\<forall>s' \<in> set srcs. s' \<noteq> s \<and> map_of (config_items rt s') k \<noteq> None \<longrightarrow> ks_priority s' < ks_priority s"
    by simp_all
  show "map_get (configs (mergeKnowledgeSources rt ''priority'' srcs)) k = Some e"
    by (rule merge_highest_configs [OF _ mem def hi]) (simp add: empty_knowledge_def)
  from e show "en_priority e = ks_priority s"
    using config_items_priority by blast
  from e show "en_source e = source_name s"
    using config_items_source by blast
next
  fix c
  assume "c \<in> set (conflicts (mergeKnowledgeSources rt ''priority'' srcs))" and "c_type c \<noteq> ''data''"
  with merge_settled [of rt srcs] show "c_resolution c = ''keep''"
    by (auto simp add: settled_def)
qed

text \<open>
  Two sources with a template, a workflow and a configuration file each, priorities 5
  and 10: the three entries are those of the source of priority 10, and the three
  records say \<open>keep\<close>.
\<close>

theorem highest_priority_source_is_kept_witness:
  "src ''/n'' 10 \<in> set full_sources \<and>
   map_of (template_items sample_rt (src ''/n'' 10)) ''api.yaml''
     = Some (new_entry ''/n/templates/api.yaml'' ''new'' (src ''/n'' 10)) \<and>
   map_get (templates (mergeKnowledgeSources sample_rt ''priority'' full_sources)) ''api.yaml''
     = Some (new_entry ''/n/templates/api.yaml'' ''new'' (src ''/n'' 10)) \<and>
   map_get (workflows (mergeKnowledgeSources sample_rt ''priority'' full_sources)) ''api.yaml''
     = Some (new_entry ''/n/workflows/api.yaml'' ''new'' (src ''/n'' 10)) \<and>
   map_get (configs (mergeKnowledgeSources sample_rt ''priority'' full_sources)) ''core-config.yaml''
     = Some (new_entry ''/n/core-config.yaml'' ''new'' (src ''/n'' 10)) \<and>
   map c_resolution (conflicts (mergeKnowledgeSources sample_rt ''priority'' full_sources))
     = [''keep'', ''keep'', ''keep'']"
proof -
  have mem: "src ''/n'' 10 \<in> set full_sources"
    by (simp add: full_sources_def)
  have dt: "map_of (template_items sample_rt (src ''/n'' 10)) ''api.yaml''
              = Some (new_entry ''/n/templates/api.yaml'' ''new'' (src ''/n'' 10))"
    by code_simp
  have dw: "map_of (workflow_items sample_rt (src ''/n'' 10)) ''api.yaml''
              = Some (new_entry ''/n/workflows/api.yaml'' ''new'' (src ''/n'' 10))"
    by code_simp
  have dc: "map_of (config_items sample_rt (src ''/n'' 10)) ''core-config.yaml''
              = Some (new_entry ''/n/core-config.yaml'' ''new'' (src ''/n'' 10))"
    by code_simp
  have hi: "\<forall>s' \<in> set full_sources. s' \<noteq> src ''/n'' 10 \<and> P s' \<longrightarrow> ks_priority s' < ks_priority (src ''/n'' 10)" for P
    by (simp add: full_sources_def src_def)
  have n: "map c_resolution (conflicts (mergeKnowledgeSources sample_rt ''priority'' full_sources))
     = [''keep'', ''keep'', ''keep'']"
    by code_simp
  note T = highest_priority_source_is_kept [where rt = sample_rt and srcs = full_sources and s = "src ''/n'' 10"]
  have a: "map_get (templates (mergeKnowledgeSources sample_rt ''priority'' full_sources)) ''api.yaml''
     = Some (new_entry ''/n/templates/api.yaml'' ''new'' (src ''/n'' 10))"
    using T [where k = "''api.yaml''" and e = "new_entry ''/n/templates/api.yaml'' ''new'' (src ''/n'' 10)",
             THEN conjunct1, THEN mp, OF conjI [OF mem conjI [OF dt hi]]]
    by (rule conjunct1)
  have b: "map_get (workflows (mergeKnowledgeSources sample_rt ''priority'' full_sources)) ''api.yaml''
     = Some (new_entry ''/n/workflows/api.yaml'' ''new'' (src ''/n'' 10))"
    using T [where k = "''api.yaml''" and e = "new_entry ''/n/workflows/api.yaml'' ''new'' (src ''/n'' 10)",
             THEN conjunct2, THEN conjunct1, THEN mp, OF conjI [OF mem conjI [OF dw hi]]]
    by (rule conjunct1)
  have c: "map_get (configs (mergeKnowledgeSources sample_rt ''priority'' full_sources)) ''core-config.yaml''
     = Some (new_entry ''/n/core-config.yaml'' ''new'' (src ''/n'' 10))"
    using T [where k = "''core-config.yaml''" and e = "new_entry ''/n/core-config.yaml'' ''new'' (src ''/n'' 10)",
             THEN conjunct2, THEN conjunct2, THEN conjunct1, THEN mp, OF conjI [OF mem conjI [OF dc hi]]]
    by (rule conjunct1)
  from mem dt a b c n show ?thesis by (intro conjI)
qed

text \<open>
  C2 as stated says \<open>replace\<close>. Priorities 5 and 10 on one template: the content is
  that of priority 10 and the one record says \<open>keep\<close>. Priorities 0, 1 and 999: the
  content is that of priority 999 and the two records say \<open>keep\<close>.
\<close>

theorem conflict_records_say_keep_counterexample:
  "map_option en_content (map_get (templates (mergeKnowledgeSources sample_rt ''priority'' two_sources)) ''api.yaml'')
     = Some ''from B'' \<and>
   map c_resolution (conflicts (mergeKnowledgeSources sample_rt ''priority'' two_sources)) = [''keep''] \<and>
   map_option en_content (map_get (templates (mergeKnowledgeSources sample_rt ''priority'' three_sources)) ''api.yaml'')
     = Some ''from local'' \<and>
   map c_resolution (conflicts (mergeKnowledgeSources sample_rt ''priority'' three_sources)) = [''keep'', ''keep'']"
  by code_simp

subsection \<open>Local knowledge\<close>

lemma local_source_priority: "ks_priority (local_source tp) = 999"
  by (simp add: local_source_def)

lemma federated_source_priority: "ks_priority (federated_source ne) = priority (e_config (snd ne))"
  by (simp add: federated_source_def)

lemma local_source_eq: "snd tp' = snd tp \<Longrightarrow> local_source tp' = local_source tp"
  by (simp add: local_source_def)

lemma knowledgeSources_set:
  "set (knowledgeSources pathExists repos (Some l)) =
     federated_source ` set repos \<union> local_source ` {tp \<in> set l. pathExists (snd tp)}"
  by (simp add: knowledgeSources_def)

text \<open>Every source of the candidate list other than the local one is below it or silent on the key.\<close>

lemma local_is_highest:
  assumes low: "\<forall>ne \<in> set repos. priority (e_config (snd ne)) < 999"
      and oth: "\<forall>tp' \<in> set l. snd tp' \<noteq> snd tp \<longrightarrow> map_of (items (local_source tp')) k = None"
  shows "\<forall>s' \<in> set (knowledgeSources pathExists repos (Some l)).
           s' \<noteq> local_source tp \<and> map_of (items s') k \<noteq> None \<longrightarrow> ks_priority s' < ks_priority (local_source tp)"
proof (intro ballI impI)
  fix s'
  assume mem: "s' \<in> set (knowledgeSources pathExists repos (Some l))"
     and ne: "s' \<noteq> local_source tp \<and> map_of (items s') k \<noteq> None"
  from mem have "s' \<in> federated_source ` set repos \<or> s' \<in> local_source ` {tp \<in> set l. pathExists (snd tp)}"
    unfolding knowledgeSources_set by simp
  then show "ks_priority s' < ks_priority (local_source tp)"
  proof
    assume "s' \<in> federated_source ` set repos"
    then obtain ne' where n: "ne' \<in> set repos" and s: "s' = federated_source ne'" by (rule imageE)
    from low n have "priority (e_config (snd ne')) < 999" by (rule bspec)
    then show ?thesis
      unfolding s by (simp add: federated_source_priority local_source_priority)
  next
    assume "s' \<in> local_source ` {tp \<in> set l. pathExists (snd tp)}"
    then obtain tp' where t: "tp' \<in> {tp \<in> set l. pathExists (snd tp)}" and s: "s' = local_source tp'"
      by (rule imageE)
    from t have tl: "tp' \<in> set l" by simp
    from ne have d: "local_source tp' \<noteq> local_source tp" and df: "map_of (items (local_source tp')) k \<noteq> None"
      unfolding s by simp_all
    from d have "snd tp' \<noteq> snd tp"
      using local_source_eq [of tp' tp] by (rule contrapos_nn)
    with oth tl have "map_of (items (local_source tp')) k = None" by simp
    with df show ?thesis by simp
  qed
qed

text \<open>
  C8, as the code has it. Every local knowledge directory that exists enters the
  candidate list with priority 999, after the federated sources. Under the \<open>priority\<close>
  strategy, where every federated source has a priority below 999 and no other local
  directory brings the key, the artifact of the local source is the one the merged tree
  holds, in the \<open>templates\<close>, \<open>workflows\<close> and \<open>configs\<close> categories.
\<close>

theorem local_knowledge_has_priority_999:
  "(\<forall>tp \<in> set l. pathExists (snd tp) \<longrightarrow>
      local_source tp \<in> set (knowledgeSources pathExists repos (Some l)) \<and>
      ks_priority (local_source tp) = 999) \<and>
   (tp \<in> set l \<and> pathExists (snd tp) \<and> (\<forall>ne \<in> set repos. priority (e_config (snd ne)) < 999) \<and>
    (\<forall>tp' \<in> set l. snd tp' \<noteq> snd tp \<longrightarrow> map_of (template_items rt (local_source tp')) k = None) \<and>
    map_of (template_items rt (local_source tp)) k = Some e \<longrightarrow>
      map_get (templates (mergeKnowledgeSources rt ''priority'' (knowledgeSources pathExists repos (Some l)))) k = Some e) \<and>
   (tp \<in> set l \<and> pathExists (snd tp) \<and> (\<forall>ne \<in> set repos. priority (e_config (snd ne)) < 999) \<and>
    (\<forall>tp' \<in> set l. snd tp' \<noteq> snd tp \<longrightarrow> map_of (workflow_items rt (local_source tp')) k = None) \<and>
    map_of (workflow_items rt (local_source tp)) k = Some e \<longrightarrow>
      map_get (workflows (mergeKnowledgeSources rt ''priority'' (knowledgeSources pathExists repos (Some l)))) k = Some e) \<and>
   (tp \<in> set l \<and> pathExists (snd tp) \<and> (\<forall>ne \<in> set repos. priority (e_config (snd ne)) < 999) \<and>
    (\<forall>tp' \<in> set l. snd tp' \<noteq> snd tp \<longrightarrow> map_of (config_items rt (local_source tp')) k = None) \<and>
    map_of (config_items rt (local_source tp)) k = Some e \<longrightarrow>
      map_get (configs (mergeKnowledgeSources rt ''priority'' (knowledgeSources pathExists repos (Some l)))) k = Some e)"
proof (intro conjI impI ballI)
  fix tp0
  assume "tp0 \<in> set l" and "pathExists (snd tp0)"
  then show "local_source tp0 \<in> set (knowledgeSources pathExists repos (Some l))"
    by (simp add: knowledgeSources_set)
  show "ks_priority (local_source tp0) = 999"
    by (rule local_source_priority)
next
  assume h: "tp \<in> set l \<and> pathExists (snd tp) \<and> (\<forall>ne \<in> set repos. priority (e_config (snd ne)) < 999) \<and>
    (\<forall>tp' \<in> set l. snd tp' \<noteq> snd tp \<longrightarrow> map_of (template_items rt (local_source tp')) k = None) \<and>
    map_of (template_items rt (local_source tp)) k = Some e"
  then have mem: "local_source tp \<in> set (knowledgeSources pathExists repos (Some l))"
    by (simp add: knowledgeSources_set)
  from h have def: "map_of (template_items rt (local_source tp)) k = Some e" by simp
  from h have hi: "\<forall>s' \<in> set (knowledgeSources pathExists repos (Some l)).
           s' \<noteq> local_source tp \<and> map_of (template_items rt s') k \<noteq> None \<longrightarrow> ks_priority s' < ks_priority (local_source tp)"
    by (intro local_is_highest [where items = "template_items rt"]) simp_all
  show "map_get (templates (mergeKnowledgeSources rt ''priority'' (knowledgeSources pathExists repos (Some l)))) k = Some e"
    by (rule merge_highest_templates [OF _ mem def hi]) (simp add: empty_knowledge_def)
next
  assume h: "tp \<in> set l \<and> pathExists (snd tp) \<and> (\<forall>ne \<in> set repos. priority (e_config (snd ne)) < 999) \<and>
    (\<forall>tp' \<in> set l. snd tp' \<noteq> snd tp \<longrightarrow> map_of (workflow_items rt (local_source tp')) k = None) \<and>
    map_of (workflow_items rt (local_source tp)) k = Some e"
  then have mem: "local_source tp \<in> set (knowledgeSources pathExists repos (Some l))"
    by (simp add: knowledgeSources_set)
  from h have def: "map_of (workflow_items rt (local_source tp)) k = Some e" by simp
  from h have hi: "\<forall>s' \<in> set (knowledgeSources pathExists repos (Some l)).
           s' \<noteq> local_source tp \<and> map_of (workflow_items rt s') k \<noteq> None \<longrightarrow> ks_priority s' < ks_priority (local_source tp)"
    by (intro local_is_highest [where items = "workflow_items rt"]) simp_all
  show "map_get (workflows (mergeKnowledgeSources rt ''priority'' (knowledgeSources pathExists repos (Some l)))) k = Some e"
    by (rule merge_highest_workflows [OF _ mem def hi]) (simp add: empty_knowledge_def)
next
  assume h: "tp \<in> set l \<and> pathExists (snd tp) \<and> (\<forall>ne \<in> set repos. priority (e_config (snd ne)) < 999) \<and>
    (\<forall>tp' \<in> set l. snd tp' \<noteq> snd tp \<longrightarrow> map_of (config_items rt (local_source tp')) k = None) \<and>
    map_of (config_items rt (local_source tp)) k = Some e"
  then have mem: "local_source tp \<in> set (knowledgeSources pathExists repos (Some l))"
    by (simp add: knowledgeSources_set)
  from h have def: "map_of (config_items rt (local_source tp)) k = Some e" by simp
  from h have hi: "\<forall>s' \<in> set (knowledgeSources pathExists repos (Some l)).
           s' \<noteq> local_source tp \<and> map_of (config_items rt s') k \<noteq> None \<longrightarrow> ks_priority s' < ks_priority (local_source tp)"
    by (intro local_is_highest [where items = "config_items rt"]) simp_all
  show "map_get (configs (mergeKnowledgeSources rt ''priority'' (knowledgeSources pathExists repos (Some l)))) k = Some e"
    by (rule merge_highest_configs [OF _ mem def hi]) (simp add: empty_knowledge_def)
qed

text \<open>
  A federated source of priority 5 at \<open>/all\<close> and the local directory \<open>/n\<close>, both with
  the same template, workflow and configuration file: the merged tree holds the local ones.
\<close>

theorem local_knowledge_has_priority_999_witness:
  "(''templates'', ''/n'') \<in> set [(''templates'', ''/n'')] \<and>
   priority (e_config (fed_entry ''/all'' 5)) < 999 \<and>
   local_source (''templates'', ''/n'')
     \<in> set (knowledgeSources (\<lambda>p. True) [(''all'', fed_entry ''/all'' 5)] (Some [(''templates'', ''/n'')])) \<and>
   ks_priority (local_source (''templates'', ''/n'')) = 999 \<and>
   map_get (templates (mergeKnowledgeSources sample_rt ''priority''
       (knowledgeSources (\<lambda>p. True) [(''all'', fed_entry ''/all'' 5)] (Some [(''templates'', ''/n'')])))) ''api.yaml''
     = Some (new_entry ''/n/templates/api.yaml'' ''new'' (local_source (''templates'', ''/n''))) \<and>
   map_get (workflows (mergeKnowledgeSources sample_rt ''priority''
       (knowledgeSources (\<lambda>p. True) [(''all'', fed_entry ''/all'' 5)] (Some [(''templates'', ''/n'')])))) ''api.yaml''
     = Some (new_entry ''/n/workflows/api.yaml'' ''new'' (local_source (''templates'', ''/n''))) \<and>
   map_get (configs (mergeKnowledgeSources sample_rt ''priority''
       (knowledgeSources (\<lambda>p. True) [(''all'', fed_entry ''/all'' 5)] (Some [(''templates'', ''/n'')])))) ''core-config.yaml''
     = Some (new_entry ''/n/core-config.yaml'' ''new'' (local_source (''templates'', ''/n'')))"
proof -
  have mem: "(''templates'', ''/n'') \<in> set [(''templates'', ''/n'')]" by simp
  have low: "\<forall>ne \<in> set [(''all'', fed_entry ''/all'' 5)]. priority (e_config (snd ne)) < 999"
    by (simp add: fed_entry_def)
  have oth: "\<forall>tp' \<in> set [(''templates'', ''/n'')]. snd tp' \<noteq> snd (''templates'', ''/n'') \<longrightarrow> P tp'" for P
    by simp
  have dt: "map_of (template_items sample_rt (local_source (''templates'', ''/n''))) ''api.yaml''
              = Some (new_entry ''/n/templates/api.yaml'' ''new'' (local_source (''templates'', ''/n'')))"
    by code_simp
  have dw: "map_of (workflow_items sample_rt (local_source (''templates'', ''/n''))) ''api.yaml''
              = Some (new_entry ''/n/workflows/api.yaml'' ''new'' (local_source (''templates'', ''/n'')))"
    by code_simp
  have dc: "map_of (config_items sample_rt (local_source (''templates'', ''/n''))) ''core-config.yaml''
              = Some (new_entry ''/n/core-config.yaml'' ''new'' (local_source (''templates'', ''/n'')))"
    by code_simp
  have ex: "(\<lambda>p. True) (snd (''templates'', ''/n''))" by simp
  note T = local_knowledge_has_priority_999 [where rt = sample_rt and pathExists = "\<lambda>p. True"
             and repos = "[(''all'', fed_entry ''/all'' 5)]" and l = "[(''templates'', ''/n'')]"
             and tp = "(''templates'', ''/n'')"]
  note T1 = T [where k = "''api.yaml''" and e = "new_entry ''/n/templates/api.yaml'' ''new'' (local_source (''templates'', ''/n''))"]
  note T2 = T [where k = "''api.yaml''" and e = "new_entry ''/n/workflows/api.yaml'' ''new'' (local_source (''templates'', ''/n''))"]
  note T3 = T [where k = "''core-config.yaml''" and e = "new_entry ''/n/core-config.yaml'' ''new'' (local_source (''templates'', ''/n''))"]
  have a: "local_source (''templates'', ''/n'')
     \<in> set (knowledgeSources (\<lambda>p. True) [(''all'', fed_entry ''/all'' 5)] (Some [(''templates'', ''/n'')])) \<and>
     ks_priority (local_source (''templates'', ''/n'')) = 999"
    by (rule T1 [THEN conjunct1, THEN bspec, OF mem, THEN mp, OF ex])
  have b: "map_get (templates (mergeKnowledgeSources sample_rt ''priority''
       (knowledgeSources (\<lambda>p. True) [(''all'', fed_entry ''/all'' 5)] (Some [(''templates'', ''/n'')])))) ''api.yaml''
     = Some (new_entry ''/n/templates/api.yaml'' ''new'' (local_source (''templates'', ''/n'')))"
    by (rule T1 [THEN conjunct2, THEN conjunct1, THEN mp,
                 OF conjI [OF mem conjI [OF ex conjI [OF low conjI [OF oth dt]]]]])
  have c: "map_get (workflows (mergeKnowledgeSources sample_rt ''priority''
       (knowledgeSources (\<lambda>p. True) [(''all'', fed_entry ''/all'' 5)] (Some [(''templates'', ''/n'')])))) ''api.yaml''
     = Some (new_entry ''/n/workflows/api.yaml'' ''new'' (local_source (''templates'', ''/n'')))"
    by (rule T2 [THEN conjunct2, THEN conjunct2, THEN conjunct1, THEN mp,
                 OF conjI [OF mem conjI [OF ex conjI [OF low conjI [OF oth dw]]]]])
  have d: "map_get (configs (mergeKnowledgeSources sample_rt ''priority''
       (knowledgeSources (\<lambda>p. True) [(''all'', fed_entry ''/all'' 5)] (Some [(''templates'', ''/n'')])))) ''core-config.yaml''
     = Some (new_entry ''/n/core-config.yaml'' ''new'' (local_source (''templates'', ''/n'')))"
    by (rule T3 [THEN conjunct2, THEN conjunct2, THEN conjunct2, THEN mp,
                 OF conjI [OF mem conjI [OF ex conjI [OF low conjI [OF oth dc]]]]])
  from a have a1: "local_source (''templates'', ''/n'')
     \<in> set (knowledgeSources (\<lambda>p. True) [(''all'', fed_entry ''/all'' 5)] (Some [(''templates'', ''/n'')]))"
    and a2: "ks_priority (local_source (''templates'', ''/n'')) = 999" by (rule conjunct1, rule conjunct2)
  have low1: "priority (e_config (fed_entry ''/all'' 5)) < 999"
    by (simp add: fed_entry_def)
  from mem low1 a1 a2 b c d show ?thesis by (intro conjI)
qed

text \<open>
  C8 as stated lets the local source win a tie. A federated source may have priority
  999 too; it stands before the local source in the candidate list, the sort keeps that
  order, and its template is the one the merged tree holds.
\<close>

theorem federated_wins_tie_counterexample:
  "ks_priority (federated_source (''fed'', fed_entry ''/fed'' 999)) = ks_priority (local_source (''templates'', ''/local'')) \<and>
   map_option en_content (map_get (templates (mergeKnowledgeSources sample_rt ''priority''
       (knowledgeSources (\<lambda>p. True) [(''fed'', fed_entry ''/fed'' 999)] (Some [(''templates'', ''/local'')])))) ''api.yaml'')
     = Some ''from fed'' \<and>
   map_option en_source (map_get (templates (mergeKnowledgeSources sample_rt ''priority''
       (knowledgeSources (\<lambda>p. True) [(''fed'', fed_entry ''/fed'' 999)] (Some [(''templates'', ''/local'')])))) ''api.yaml'')
     = Some ''fed''"
  by code_simp

end
